theory Spec2Isabelle
  imports Main "HOL-Library.Sublist" "HOL-Library.List_Lexorder" "HOL-Library.Char_ord"
begin

section \<open>Strings and the two regular expressions of pure.py\<close>

text \<open>
  Python 2 strings are modelled as \<open>string\<close> (a list of 8-bit characters).
  \<^verbatim>\<open>INVALID_CHARACTERS = re.compile(r"[^-a-zA-Z0-9]")\<close> matches one character that is
  outside the class; \<open>valid_character\<close> is the class itself.
\<close>

definition valid_character :: "char \<Rightarrow> bool" where
  "valid_character c =
     (c \<in> set ''-abcdefghijklmnopqrstuvwxyzABCDEFGHIJKLMNOPQRSTUVWXYZ0123456789'')"

text \<open>\<^verbatim>\<open>INVALID_CHARACTERS.sub("-", name)\<close>: every match is one character, replaced by a dash.\<close>

definition INVALID_CHARACTERS_sub :: "string \<Rightarrow> string" where
  "INVALID_CHARACTERS_sub name = map (\<lambda>c. if valid_character c then c else CHR ''-'') name"

text \<open>\<^verbatim>\<open>name.lstrip("-")\<close>\<close>

definition lstrip_dash :: "string \<Rightarrow> string" where
  "lstrip_dash name = dropWhile (\<lambda>c. c = CHR ''-'') name"

text \<open>The class \<^verbatim>\<open>[a-f0-9]\<close> of the pattern GENERATED_NAME.\<close>

definition hex_digit :: "char \<Rightarrow> bool" where
  "hex_digit c = (c \<in> set ''abcdef0123456789'')"

text \<open>
  \<^verbatim>\<open>uuid.uuid4().hex\<close> is a string of 32 lowercase hexadecimal digits. The random value is a
  parameter of the model; \<open>uuid_hex\<close> says that a string has the shape of such a value.
\<close>

definition uuid_hex :: "string \<Rightarrow> bool" where
  "uuid_hex u = (length u = 32 \<and> list_all hex_digit u)"

text \<open>
  \<^verbatim>\<open>GENERATED_NAME = re.compile(r".*-[a-f0-9]{32}-cinder$")\<close>, used through
  \<^verbatim>\<open>GENERATED_NAME.match(host_name)\<close>. The match is anchored at the start of the string;
  \<^verbatim>\<open>.\<close> matches every character but the newline; \<^verbatim>\<open>$\<close> matches at the end of the string
  and just before a newline that ends the string.

  \<open>generated_tail s\<close>: \<open>s\<close> is what the pattern needs after \<^verbatim>\<open>.*\<close>.
  \<open>GENERATED_NAME_match s\<close>: some split of \<open>s\<close> into a newline-free prefix and such a tail
  exists (the regular expression engine backtracks over all of them).
\<close>

definition newline :: char where
  "newline = CHR 0x0A"

definition generated_tail :: "string \<Rightarrow> bool" where
  "generated_tail s =
     (case s of
        [] \<Rightarrow> False
      | c # r \<Rightarrow> c = CHR ''-'' \<and> uuid_hex (take 32 r) \<and>
                 (drop 32 r = ''-cinder'' \<or> drop 32 r = ''-cinder'' @ [newline]))"

fun GENERATED_NAME_match :: "string \<Rightarrow> bool" where
  "GENERATED_NAME_match [] = False"
| "GENERATED_NAME_match (c # cs) =
     (generated_tail (c # cs) \<or> (c \<noteq> newline \<and> GENERATED_NAME_match cs))"

text \<open>
  \<^verbatim>\<open>
  def _generate_purity_host_name(name):
      if len(name) > 23:
          name = name[0:23]
      name = INVALID_CHARACTERS.sub("-", name)
      name = name.lstrip("-")
      return "{name}-{uuid}-cinder".format(name=name, uuid=uuid.uuid4().hex)
  \<close>
  The second argument is the value of \<^verbatim>\<open>uuid.uuid4().hex\<close>.
\<close>

definition generate_purity_host_name :: "string \<Rightarrow> string \<Rightarrow> string" where
  "generate_purity_host_name name0 uuid =
     (let name1 = (if length name0 > 23 then take 23 name0 else name0);
          name2 = INVALID_CHARACTERS_sub name1;
          name3 = lstrip_dash name2
      in name3 @ ''-'' @ uuid @ ''-cinder'')"

subsection \<open>The matcher is the regular expression\<close>

lemma generated_tail_iff:
  "generated_tail s \<longleftrightarrow>
     (\<exists>h t. s = ''-'' @ h @ ''-cinder'' @ t \<and> uuid_hex h \<and> (t = [] \<or> t = [newline]))"
proof
  assume a: "generated_tail s"
  then obtain c r where s: "s = c # r" and c: "c = CHR ''-''" and h: "uuid_hex (take 32 r)"
    and d: "drop 32 r = ''-cinder'' \<or> drop 32 r = ''-cinder'' @ [newline]"
    by (auto simp: generated_tail_def split: list.splits)
  have r: "r = take 32 r @ drop 32 r" by simp
  from d show "\<exists>h t. s = ''-'' @ h @ ''-cinder'' @ t \<and> uuid_hex h \<and> (t = [] \<or> t = [newline])"
  proof
    assume "drop 32 r = ''-cinder''"
    with r have "s = ''-'' @ take 32 r @ ''-cinder'' @ []" using s c by (metis append_Cons append_Nil)
    with h show ?thesis by blast
  next
    assume "drop 32 r = ''-cinder'' @ [newline]"
    with r have "s = ''-'' @ take 32 r @ ''-cinder'' @ [newline]" using s c by (metis append_Cons append_Nil)
    with h show ?thesis by blast
  qed
next
  assume "\<exists>h t. s = ''-'' @ h @ ''-cinder'' @ t \<and> uuid_hex h \<and> (t = [] \<or> t = [newline])"
  then obtain h t where s: "s = ''-'' @ h @ ''-cinder'' @ t" and h: "uuid_hex h"
    and t: "t = [] \<or> t = [newline]" by blast
  from h have len: "length h = 32" by (simp add: uuid_hex_def)
  from s have "s = CHR ''-'' # (h @ ''-cinder'' @ t)" by simp
  moreover from len have "take 32 (h @ ''-cinder'' @ t) = h" by simp
  moreover from len have "drop 32 (h @ ''-cinder'' @ t) = ''-cinder'' @ t" by simp
  ultimately show "generated_tail s"
    using h t by (auto simp: generated_tail_def)
qed

lemma GENERATED_NAME_match_append:
  "newline \<notin> set p \<Longrightarrow> generated_tail t \<Longrightarrow> GENERATED_NAME_match (p @ t)"
proof (induction p)
  case Nil
  then show ?case by (cases t) (auto simp: generated_tail_def)
next
  case (Cons a p)
  then show ?case by auto
qed

lemma GENERATED_NAME_match_split:
  "GENERATED_NAME_match s \<Longrightarrow> \<exists>p t. s = p @ t \<and> newline \<notin> set p \<and> generated_tail t"
proof (induction s)
  case Nil
  then show ?case by simp
next
  case (Cons c cs)
  show ?case
  proof (cases "generated_tail (c # cs)")
    case True
    then have "c # cs = [] @ (c # cs) \<and> newline \<notin> set [] \<and> generated_tail (c # cs)" by simp
    then show ?thesis by blast
  next
    case False
    with Cons.prems have c: "c \<noteq> newline" and m: "GENERATED_NAME_match cs" by auto
    from Cons.IH [OF m] obtain p t where "cs = p @ t" "newline \<notin> set p" "generated_tail t"
      by blast
    with c have "c # cs = (c # p) @ t \<and> newline \<notin> set (c # p) \<and> generated_tail t" by auto
    then show ?thesis by blast
  qed
qed

lemma GENERATED_NAME_match_iff:
  "GENERATED_NAME_match s \<longleftrightarrow>
     (\<exists>p h t. s = p @ ''-'' @ h @ ''-cinder'' @ t \<and> newline \<notin> set p \<and> uuid_hex h \<and>
        (t = [] \<or> t = [newline]))"
proof
  assume "GENERATED_NAME_match s"
  then obtain p t where "s = p @ t" "newline \<notin> set p" "generated_tail t"
    using GENERATED_NAME_match_split by blast
  then show "\<exists>p h t. s = p @ ''-'' @ h @ ''-cinder'' @ t \<and> newline \<notin> set p \<and> uuid_hex h \<and>
        (t = [] \<or> t = [newline])"
    unfolding generated_tail_iff by blast
next
  assume "\<exists>p h t. s = p @ ''-'' @ h @ ''-cinder'' @ t \<and> newline \<notin> set p \<and> uuid_hex h \<and>
        (t = [] \<or> t = [newline])"
  then obtain p h t where s: "s = p @ (''-'' @ h @ ''-cinder'' @ t)" and p: "newline \<notin> set p"
    and h: "uuid_hex h" and t: "t = [] \<or> t = [newline]" by auto
  from h t have "generated_tail (''-'' @ h @ ''-cinder'' @ t)"
    unfolding generated_tail_iff by blast
  with p show "GENERATED_NAME_match s"
    unfolding s by (rule GENERATED_NAME_match_append)
qed

subsection \<open>Generated host names\<close>

lemma valid_character_not_newline: "valid_character c \<Longrightarrow> c \<noteq> newline"
  by (auto simp: valid_character_def newline_def)

lemma INVALID_CHARACTERS_sub_valid: "list_all valid_character (INVALID_CHARACTERS_sub name)"
  by (induction name) (auto simp: INVALID_CHARACTERS_sub_def valid_character_def)

lemma lstrip_dash_valid: "list_all valid_character name \<Longrightarrow> list_all valid_character (lstrip_dash name)"
  by (induction name) (auto simp: lstrip_dash_def)

lemma lstrip_dash_length: "length (lstrip_dash name) \<le> length name"
  by (simp add: lstrip_dash_def length_dropWhile_le)

lemma lstrip_dash_no_leading: "\<not> prefix ''-'' (lstrip_dash name)"
proof (cases "lstrip_dash name")
  case Nil
  then show ?thesis by simp
next
  case (Cons c cs)
  then have "dropWhile (\<lambda>c. c = CHR ''-'') name = c # cs" by (simp add: lstrip_dash_def)
  then have "c \<noteq> CHR ''-''" by (rule dropWhile_eq_Cons_conv [THEN iffD1, THEN conjunct2])
  with Cons show ?thesis by simp
qed

definition host_prefix :: "string \<Rightarrow> string" where
  "host_prefix name = lstrip_dash (INVALID_CHARACTERS_sub (take 23 name))"

lemma generate_purity_host_name_eq:
  "generate_purity_host_name name u = host_prefix name @ ''-'' @ u @ ''-cinder''"
  by (simp add: generate_purity_host_name_def host_prefix_def Let_def)

lemma host_prefix_props:
  "length (host_prefix name) \<le> 23 \<and> list_all valid_character (host_prefix name) \<and>
   \<not> prefix ''-'' (host_prefix name)"
proof -
  have "length (host_prefix name) \<le> length (INVALID_CHARACTERS_sub (take 23 name))"
    unfolding host_prefix_def by (rule lstrip_dash_length)
  also have "\<dots> \<le> 23" by (simp add: INVALID_CHARACTERS_sub_def)
  finally have "length (host_prefix name) \<le> 23" .
  moreover have "list_all valid_character (host_prefix name)"
    unfolding host_prefix_def by (intro lstrip_dash_valid INVALID_CHARACTERS_sub_valid)
  moreover have "\<not> prefix ''-'' (host_prefix name)"
    unfolding host_prefix_def by (rule lstrip_dash_no_leading)
  ultimately show ?thesis by blast
qed

text \<open>
  C9. For every input string, \<open>_generate_purity_host_name\<close> returns the input cut to at most
  23 characters, with every character outside \<^verbatim>\<open>[-a-zA-Z0-9]\<close> replaced by a dash and the
  leading dashes stripped, followed by a dash, the 32 lowercase hexadecimal digits of the
  uuid and \<^verbatim>\<open>-cinder\<close>; every such name matches GENERATED_NAME, the pattern by which
  \<open>_disconnect_host\<close> decides on the deletion of a host.
\<close>

theorem generate_purity_host_name_generated:
  assumes "uuid_hex u"
  shows "generate_purity_host_name name u =
           lstrip_dash (INVALID_CHARACTERS_sub (take 23 name)) @ ''-'' @ u @ ''-cinder'' \<and>
         length (lstrip_dash (INVALID_CHARACTERS_sub (take 23 name))) \<le> 23 \<and>
         list_all valid_character (lstrip_dash (INVALID_CHARACTERS_sub (take 23 name))) \<and>
         \<not> prefix ''-'' (lstrip_dash (INVALID_CHARACTERS_sub (take 23 name))) \<and>
         GENERATED_NAME_match (generate_purity_host_name name u)"
proof -
  have nl: "newline \<notin> set (host_prefix name)"
    using host_prefix_props [of name] valid_character_not_newline
    by (auto simp: list_all_iff)
  from assms have "generated_tail (''-'' @ u @ ''-cinder'')"
    unfolding generated_tail_iff by auto
  with nl have "GENERATED_NAME_match (host_prefix name @ (''-'' @ u @ ''-cinder''))"
    by (rule GENERATED_NAME_match_append)
  then have "GENERATED_NAME_match (generate_purity_host_name name u)"
    by (simp add: generate_purity_host_name_eq)
  then show ?thesis
    using host_prefix_props [of name] generate_purity_host_name_eq [of name u]
    by (simp add: host_prefix_def)
qed

theorem generate_purity_host_name_generated_witness:
  "uuid_hex ''0123456789abcdef0123456789abcdef'' \<and>
   generate_purity_host_name ''--my_host.example.org/compute#01'' ''0123456789abcdef0123456789abcdef''
     = ''my-host-example-org-c-0123456789abcdef0123456789abcdef-cinder'' \<and>
   GENERATED_NAME_match
     (generate_purity_host_name ''--my_host.example.org/compute#01'' ''0123456789abcdef0123456789abcdef'')"
proof -
  have u: "uuid_hex ''0123456789abcdef0123456789abcdef''"
    by (simp add: uuid_hex_def hex_digit_def)
  have e: "generate_purity_host_name ''--my_host.example.org/compute#01'' ''0123456789abcdef0123456789abcdef''
     = ''my-host-example-org-c-0123456789abcdef0123456789abcdef-cinder''"
    by (simp add: generate_purity_host_name_def INVALID_CHARACTERS_sub_def lstrip_dash_def
        valid_character_def Let_def)
  from generate_purity_host_name_generated [OF u, of "''--my_host.example.org/compute#01''"] u e
  show ?thesis by blast
qed


section \<open>Values, exceptions and the array seen by the driver\<close>

text \<open>
  What the REST client hands to the driver is decoded JSON (\<^verbatim>\<open>json.loads\<close>): Python's
  \<^verbatim>\<open>None\<close>, booleans, integers, strings, lists and dictionaries (an association list; the
  first entry of a key is the one found). Numbers are integers here.
\<close>

datatype jval =
    JNull
  | JBool bool
  | JInt int
  | JStr string
  | JList "jval list"
  | JDict "(string \<times> jval) list"

text \<open>
  The exceptions of the driver. \<open>PureAPIException code msg\<close>: \<open>code\<close> is the keyword
  argument \<^verbatim>\<open>code\<close> the exception was raised with (\<open>None\<close> when it was raised without one;
  \<^verbatim>\<open>err.kwargs["code"]\<close> is then the default of the exception class, which is not 400),
  \<open>msg\<close> is \<^verbatim>\<open>err.msg\<close>. \<open>PureDriverException reason\<close> carries its \<^verbatim>\<open>reason\<close>. The other
  constructors are the Python exceptions that reading a value of the wrong shape raises.
\<close>

datatype error =
    PureAPIException "int option" string
  | PureDriverException string
  | KeyError string
  | TypeError
  | ValueError
  | AttributeError

text \<open>Python's truth value of an object (\<^verbatim>\<open>if host:\<close>, \<^verbatim>\<open>not connection\<close>).\<close>

fun truthy :: "jval \<Rightarrow> bool" where
  "truthy JNull = False"
| "truthy (JBool b) = b"
| "truthy (JInt i) = (i \<noteq> 0)"
| "truthy (JStr s) = (s \<noteq> [])"
| "truthy (JList xs) = (xs \<noteq> [])"
| "truthy (JDict d) = (d \<noteq> [])"

text \<open>\<^verbatim>\<open>obj[key]\<close> with a string key: a dictionary finds it or raises KeyError; nothing
  else is subscriptable by a string.\<close>

fun subscript :: "jval \<Rightarrow> string \<Rightarrow> error + jval" where
  "subscript (JDict d) k = (case map_of d k of None \<Rightarrow> Inl (KeyError k) | Some v \<Rightarrow> Inr v)"
| "subscript _ k = Inl TypeError"

text \<open>\<^verbatim>\<open>for x in obj\<close>: the elements of a list, the keys of a dictionary, the characters
  of a string.\<close>

fun iter :: "jval \<Rightarrow> error + jval list" where
  "iter (JList xs) = Inr xs"
| "iter (JDict d) = Inr (map (\<lambda>kv. JStr (fst kv)) d)"
| "iter (JStr s) = Inr (map (\<lambda>c. JStr [c]) s)"
| "iter _ = Inl TypeError"

text \<open>\<^verbatim>\<open>x in obj\<close>: membership in a list, a key of a dictionary (a list or a dictionary
  cannot be hashed), a substring of a string. Values are compared by their structure
  (Python also takes \<^verbatim>\<open>True\<close> for 1 and \<^verbatim>\<open>False\<close> for 0).\<close>

fun py_in :: "jval \<Rightarrow> jval \<Rightarrow> error + bool" where
  "py_in x (JList xs) = Inr (x \<in> set xs)"
| "py_in (JStr k) (JDict d) = Inr (k \<in> set (map fst d))"
| "py_in (JList xs) (JDict d) = Inl TypeError"
| "py_in (JDict d') (JDict d) = Inl TypeError"
| "py_in x (JDict d) = Inr False"
| "py_in (JStr a) (JStr b) = Inr (sublist a b)"
| "py_in x (JStr b) = Inl TypeError"
| "py_in x _ = Inl TypeError"

text \<open>
  The driver reaches the array only through the methods of \<^verbatim>\<open>self._array\<close>. Each method
  is one \<open>call\<close>; the array is any function that answers a call in a state of the
  outside world, with a value or an exception, and moves to a new state. The driver's
  run carries that state and the list of the calls issued so far.
\<close>

datatype call =
    ListVolumeHosts string
  | DestroyVolume string
  | DisconnectHost jval string
  | ListHostConnections jval bool
  | DeleteHost jval
  | ListHosts
  | CreateHost jval "string list"
  | ConnectHost jval string

type_synonym 's array = "call \<Rightarrow> 's \<Rightarrow> (error + jval) \<times> 's"

type_synonym 's world = "'s \<times> call list"

type_synonym ('s, 'a) run = "'s world \<Rightarrow> (error + 'a) \<times> 's world"

text \<open>
  A run is a function from the state before to a result, a value or an exception, and the
  state after. The combinators below are used for the runs of both drivers, so they are
  stated for any state and any type of exceptions.
\<close>

definition returnE :: "'a \<Rightarrow> 'w \<Rightarrow> ('e + 'a) \<times> 'w" where
  "returnE a = (\<lambda>w. (Inr a, w))"

definition raiseE :: "'e \<Rightarrow> 'w \<Rightarrow> ('e + 'a) \<times> 'w" where
  "raiseE e = (\<lambda>w. (Inl e, w))"

definition liftE :: "'e + 'a \<Rightarrow> 'w \<Rightarrow> ('e + 'a) \<times> 'w" where
  "liftE r = (\<lambda>w. (r, w))"

text \<open>Sequencing: an exception of the first part skips the second.\<close>

definition bindE ::
  "('w \<Rightarrow> ('e + 'a) \<times> 'w) \<Rightarrow> ('a \<Rightarrow> 'w \<Rightarrow> ('e + 'b) \<times> 'w) \<Rightarrow> 'w \<Rightarrow> ('e + 'b) \<times> 'w" where
  "bindE m f = (\<lambda>w. case m w of (Inl e, w') \<Rightarrow> (Inl e, w') | (Inr a, w') \<Rightarrow> f a w')"

text \<open>\<^verbatim>\<open>try: m  except ... as err: h err\<close>; the handler decides what it re-raises.\<close>

definition catchE ::
  "('w \<Rightarrow> ('e + 'a) \<times> 'w) \<Rightarrow> ('e \<Rightarrow> 'w \<Rightarrow> ('e + 'a) \<times> 'w) \<Rightarrow> 'w \<Rightarrow> ('e + 'a) \<times> 'w" where
  "catchE m h = (\<lambda>w. case m w of (Inl e, w') \<Rightarrow> h e w' | (Inr a, w') \<Rightarrow> (Inr a, w'))"

definition invoke :: "'s array \<Rightarrow> call \<Rightarrow> ('s, jval) run" where
  "invoke arr c = (\<lambda>w. case arr c (fst w) of (r, s') \<Rightarrow> (r, (s', snd w @ [c])))"

fun for_each ::
  "'a list \<Rightarrow> ('a \<Rightarrow> 'w \<Rightarrow> ('e + unit) \<times> 'w) \<Rightarrow> 'w \<Rightarrow> ('e + unit) \<times> 'w" where
  "for_each [] body = returnE ()"
| "for_each (x # xs) body = bindE (body x) (\<lambda>_. for_each xs body)"

section \<open>PureISCSIDriver\<close>

record volume =
  volume_name :: string
  volume_size :: int

record snapshot =
  snapshot_volume_name :: string
  snapshot_name :: string

record connector =
  connector_initiator :: string
  connector_host :: string

text \<open>\<^verbatim>\<open>volume["name"] + "-cinder"\<close>\<close>

definition get_vol_name :: "volume \<Rightarrow> string" where
  "get_vol_name volume = volume_name volume @ ''-cinder''"

text \<open>\<^verbatim>\<open>"%s-cinder.%s" % (snapshot["volume_name"], snapshot["name"])\<close>\<close>

definition get_snap_name :: "snapshot \<Rightarrow> string" where
  "get_snap_name snapshot =
     snapshot_volume_name snapshot @ ''-cinder.'' @ snapshot_name snapshot"

text \<open>\<^verbatim>\<open>GENERATED_NAME.match(host_name)\<close> on an object: a string is matched, anything else
  is a TypeError.\<close>

fun GENERATED_NAME_match_obj :: "jval \<Rightarrow> error + bool" where
  "GENERATED_NAME_match_obj (JStr s) = Inr (GENERATED_NAME_match s)"
| "GENERATED_NAME_match_obj _ = Inl TypeError"

text \<open>
  \<^verbatim>\<open>
  def _disconnect_host(self, host_name, vol_name):
      try:
          self._array.disconnect_host(host_name, vol_name)
      except exception.PureAPIException as err:
          with excutils.save_and_reraise_exception() as ctxt:
              if err.kwargs["code"] == 400:
                  # Happens if the host and volume are not connected.
                  ctxt.reraise = False
      if (GENERATED_NAME.match(host_name) and
          not self._array.list_host_connections(host_name, private=True)):
          self._array.delete_host(host_name)
  \<close>
\<close>

definition disconnect_host :: "'s array \<Rightarrow> jval \<Rightarrow> string \<Rightarrow> ('s, unit) run" where
  "disconnect_host arr host_name vol_name =
     bindE
       (catchE (bindE (invoke arr (DisconnectHost host_name vol_name)) (\<lambda>_. returnE ()))
          (\<lambda>err. case err of
             PureAPIException code msg \<Rightarrow> if code = Some 400 then returnE () else raiseE err
           | _ \<Rightarrow> raiseE err))
       (\<lambda>_. bindE (liftE (GENERATED_NAME_match_obj host_name))
          (\<lambda>generated.
             if generated then
               bindE (invoke arr (ListHostConnections host_name True))
                 (\<lambda>connections.
                    if \<not> truthy connections then
                      bindE (invoke arr (DeleteHost host_name)) (\<lambda>_. returnE ())
                    else returnE ())
             else returnE ()))"

text \<open>
  \<^verbatim>\<open>
  def delete_volume(self, volume):
      vol_name = _get_vol_name(volume)
      try:
          connected_hosts = self._array.list_volume_hosts(vol_name)
          for host_info in connected_hosts:
              host_name = host_info["host"]
              self._disconnect_host(host_name, vol_name)
          self._array.destroy_volume(vol_name)
      except exception.PureAPIException as err:
          with excutils.save_and_reraise_exception() as ctxt:
              if err.kwargs["code"] == 400 and \
                      "Volume does not exist" in err.msg:
                  ctxt.reraise = False
  \<close>
  \<open>delete_volume_try\<close> is the body of the \<^verbatim>\<open>try\<close>, \<open>delete_volume_except\<close> the handler.
\<close>

definition delete_volume_try :: "'s array \<Rightarrow> string \<Rightarrow> ('s, unit) run" where
  "delete_volume_try arr vol_name =
     bindE (invoke arr (ListVolumeHosts vol_name))
       (\<lambda>connected_hosts. bindE (liftE (iter connected_hosts))
       (\<lambda>host_infos. bindE
          (for_each host_infos
             (\<lambda>host_info. bindE (liftE (subscript host_info ''host''))
                (\<lambda>host_name. disconnect_host arr host_name vol_name)))
       (\<lambda>_. bindE (invoke arr (DestroyVolume vol_name)) (\<lambda>_. returnE ()))))"

definition delete_volume_except :: "error \<Rightarrow> ('s, unit) run" where
  "delete_volume_except err =
     (case err of
        PureAPIException code msg \<Rightarrow>
          if code = Some 400 \<and> sublist ''Volume does not exist'' msg then returnE ()
          else raiseE err
      | _ \<Rightarrow> raiseE err)"

definition delete_volume :: "'s array \<Rightarrow> volume \<Rightarrow> ('s, unit) run" where
  "delete_volume arr volume =
     (let vol_name = get_vol_name volume
      in catchE (delete_volume_try arr vol_name) delete_volume_except)"

text \<open>
  \<^verbatim>\<open>
  def delete_snapshot(self, snapshot):
      snap_name = _get_snap_name(snapshot)
      try:
          self._array.destroy_volume(snap_name)
      except exception.PureAPIException as err:
          with excutils.save_and_reraise_exception() as ctxt:
              if err.kwargs["code"] == 400:
                  # Happens if the snapshot does not exist.
                  ctxt.reraise = False
  \<close>
\<close>

definition delete_snapshot :: "'s array \<Rightarrow> snapshot \<Rightarrow> ('s, unit) run" where
  "delete_snapshot arr snapshot =
     (let snap_name = get_snap_name snapshot
      in catchE (bindE (invoke arr (DestroyVolume snap_name)) (\<lambda>_. returnE ()))
           (\<lambda>err. case err of
              PureAPIException code msg \<Rightarrow> if code = Some 400 then returnE () else raiseE err
            | _ \<Rightarrow> raiseE err))"

text \<open>
  \<^verbatim>\<open>
  def _get_host(self, connector):
      hosts = self._array.list_hosts()
      for host in hosts:
          if connector["initiator"] in host["iqn"]:
              return host
      return None
  \<close>
\<close>

fun get_host_loop :: "connector \<Rightarrow> jval list \<Rightarrow> error + jval" where
  "get_host_loop connector [] = Inr JNull"
| "get_host_loop connector (host # hosts) =
     (case subscript host ''iqn'' of
        Inl e \<Rightarrow> Inl e
      | Inr iqn \<Rightarrow>
          (case py_in (JStr (connector_initiator connector)) iqn of
             Inl e \<Rightarrow> Inl e
           | Inr True \<Rightarrow> Inr host
           | Inr False \<Rightarrow> get_host_loop connector hosts))"

definition get_host :: "'s array \<Rightarrow> connector \<Rightarrow> ('s, jval) run" where
  "get_host arr connector =
     bindE (invoke arr ListHosts)
       (\<lambda>hosts. bindE (liftE (iter hosts))
       (\<lambda>hs. liftE (get_host_loop connector hs)))"

text \<open>
  \<^verbatim>\<open>
  def _connect(self, volume, connector):
      connection = None
      vol_name = _get_vol_name(volume)
      host = self._get_host(connector)
      if host:
          host_name = host["name"]
      else:
          host_name = _generate_purity_host_name(connector["host"])
          iqn = connector["initiator"]
          self._array.create_host(host_name, iqnlist=[iqn])
      try:
          connection = self._array.connect_host(host_name, vol_name)
      except exception.PureAPIException as err:
          with excutils.save_and_reraise_exception() as ctxt:
              if (err.kwargs["code"] == 400 and
                      "Connection already exists" in err.msg):
                  # Happens if the volume is already connected to the host.
                  ctxt.reraise = False
                  # Get the info for the existing connection
                  connected_hosts = self._array.list_volume_hosts(vol_name)
                  for host_info in connected_hosts:
                      if host_info["host"] == host_name:
                          connection = host_info
                          break
      if not connection:
          raise exception.PureDriverException(
              reason=_("Unable to connect or find connection to host"))
      return connection
  \<close>
  \<open>connect_host_name\<close> is the first part (the name of the host to connect),
  \<open>find_connection\<close> the loop of the handler, \<open>connect_to\<close> the rest. An exception raised
  inside the \<^verbatim>\<open>with\<close> block replaces the one being handled. The third argument of
  \<open>connect\<close> is the value of \<^verbatim>\<open>uuid.uuid4().hex\<close>.
\<close>

definition connect_host_name :: "'s array \<Rightarrow> connector \<Rightarrow> string \<Rightarrow> ('s, jval) run" where
  "connect_host_name arr connector uuid =
     bindE (get_host arr connector)
       (\<lambda>host.
          if truthy host then liftE (subscript host ''name'')
          else
            (let host_name = JStr (generate_purity_host_name (connector_host connector) uuid);
                 iqn = connector_initiator connector
             in bindE (invoke arr (CreateHost host_name [iqn])) (\<lambda>_. returnE host_name)))"

fun find_connection :: "jval list \<Rightarrow> jval \<Rightarrow> error + jval" where
  "find_connection [] host_name = Inr JNull"
| "find_connection (host_info # rest) host_name =
     (case subscript host_info ''host'' of
        Inl e \<Rightarrow> Inl e
      | Inr h \<Rightarrow> if h = host_name then Inr host_info else find_connection rest host_name)"

definition connect_to :: "'s array \<Rightarrow> jval \<Rightarrow> string \<Rightarrow> ('s, jval) run" where
  "connect_to arr host_name vol_name =
     bindE
       (catchE (invoke arr (ConnectHost host_name vol_name))
          (\<lambda>err. case err of
             PureAPIException code msg \<Rightarrow>
               if code = Some 400 \<and> sublist ''Connection already exists'' msg then
                 bindE (invoke arr (ListVolumeHosts vol_name))
                   (\<lambda>connected_hosts. bindE (liftE (iter connected_hosts))
                   (\<lambda>host_infos. liftE (find_connection host_infos host_name)))
               else raiseE err
           | _ \<Rightarrow> raiseE err))
       (\<lambda>connection.
          if \<not> truthy connection then
            raiseE (PureDriverException ''Unable to connect or find connection to host'')
          else returnE connection)"

definition connect :: "'s array \<Rightarrow> volume \<Rightarrow> connector \<Rightarrow> string \<Rightarrow> ('s, jval) run" where
  "connect arr volume connector uuid =
     (let vol_name = get_vol_name volume
      in bindE (connect_host_name arr connector uuid)
           (\<lambda>host_name. connect_to arr host_name vol_name))"


section \<open>Properties of the driver\<close>

lemmas run_defs = returnE_def raiseE_def liftE_def bindE_def catchE_def invoke_def

text \<open>Arrays and inputs on which the theorems below are exercised.\<close>

definition vol1 :: volume where
  "vol1 = \<lparr>volume_name = ''volume-1'', volume_size = 1\<rparr>"

definition snap1 :: snapshot where
  "snap1 = \<lparr>snapshot_volume_name = ''volume-1'', snapshot_name = ''snapshot-1''\<rparr>"

definition connector1 :: connector where
  "connector1 =
     \<lparr>connector_initiator = ''iqn.1994-05.com.example:a'', connector_host = ''compute1''\<rparr>"

definition uuid1 :: string where
  "uuid1 = ''0123456789abcdef0123456789abcdef''"

text \<open>An array on which no host is connected to the volume and every destroy is refused
  with code 400 and a message that is not about a missing volume.\<close>

definition busy_array :: "unit array" where
  "busy_array c s =
     (case c of
        DestroyVolume v \<Rightarrow> (Inl (PureAPIException (Some 400) ''Volume has been connected''), s)
      | ListVolumeHosts v \<Rightarrow> (Inr (JList []), s)
      | _ \<Rightarrow> (Inr JNull, s))"

text \<open>An array that accepts every call and lists no connection of any host.\<close>

definition idle_array :: "unit array" where
  "idle_array c s =
     (case c of
        ListHostConnections h p \<Rightarrow> (Inr (JList []), s)
      | _ \<Rightarrow> (Inr JNull, s))"

text \<open>An array that knows the host h1 of the connector, already connected to the volume
  (and h0, connected too).\<close>

definition connected_array :: "unit array" where
  "connected_array c s =
     (case c of
        ListHosts \<Rightarrow>
          (Inr (JList [JDict [(''name'', JStr ''h1''),
                              (''iqn'', JList [JStr ''iqn.1994-05.com.example:a''])]]), s)
      | ConnectHost h v \<Rightarrow> (Inl (PureAPIException (Some 400) ''Connection already exists.''), s)
      | ListVolumeHosts v \<Rightarrow>
          (Inr (JList [JDict [(''host'', JStr ''h0''), (''lun'', JInt 1)],
                       JDict [(''host'', JStr ''h1''), (''lun'', JInt 2)]]), s)
      | _ \<Rightarrow> (Inr JNull, s))"

text \<open>The same array, but the listing of the volume's hosts does not show h1.\<close>

definition inconsistent_array :: "unit array" where
  "inconsistent_array c s =
     (case c of
        ListVolumeHosts v \<Rightarrow> (Inr (JList [JDict [(''host'', JStr ''h0''), (''lun'', JInt 1)]]), s)
      | _ \<Rightarrow> connected_array c s)"

subsection \<open>delete_snapshot and delete_volume\<close>



subsection \<open>_disconnect_host\<close>

text \<open>
  C7. Once the disconnect call has returned, or has failed with the tolerated code 400,
  \<open>_disconnect_host\<close> issues the deletion of the host if and only if the host name matches
  GENERATED_NAME and the array lists no private connection of the host. A host whose name
  does not match is never deleted, and neither is a host that still has private
  connections (whatever the disconnect call did).
\<close>

theorem disconnect_host_deletes_iff:
  fixes arr :: "'s array"
  assumes "arr (DisconnectHost hn vn) s = (r, s1)"
  shows
  "((case r of Inl (PureAPIException code msg) \<Rightarrow> code = Some 400 | Inl _ \<Rightarrow> False
     | Inr _ \<Rightarrow> True) \<longrightarrow>
      (DeleteHost hn \<in> set (snd (snd (disconnect_host arr hn vn (s, [])))) \<longleftrightarrow>
         GENERATED_NAME_match_obj hn = Inr True \<and>
         (\<exists>conns s2. arr (ListHostConnections hn True) s1 = (Inr conns, s2) \<and>
            \<not> truthy conns))) \<and>
   (GENERATED_NAME_match_obj hn \<noteq> Inr True \<longrightarrow>
      DeleteHost hn \<notin> set (snd (snd (disconnect_host arr hn vn (s, []))))) \<and>
   ((\<exists>conns s2. arr (ListHostConnections hn True) s1 = (Inr conns, s2) \<and> truthy conns) \<longrightarrow>
      DeleteHost hn \<notin> set (snd (snd (disconnect_host arr hn vn (s, [])))))"
  using assms
  by (auto simp: disconnect_host_def run_defs
      split: sum.splits error.splits prod.splits if_splits)

lemma generated_example:
  "GENERATED_NAME_match ''compute1-0123456789abcdef0123456789abcdef-cinder''"
proof -
  have "newline \<notin> set ''compute1''" by (simp add: newline_def)
  moreover have "generated_tail ''-0123456789abcdef0123456789abcdef-cinder''"
    by (simp add: generated_tail_def uuid_hex_def hex_digit_def)
  ultimately have "GENERATED_NAME_match
      (''compute1'' @ ''-0123456789abcdef0123456789abcdef-cinder'')"
    by (rule GENERATED_NAME_match_append)
  then show ?thesis by simp
qed

theorem disconnect_host_deletes_iff_witness:
  "idle_array (DisconnectHost (JStr ''compute1-0123456789abcdef0123456789abcdef-cinder'')
       ''volume-1-cinder'') () = (Inr JNull, ()) \<and>
   DeleteHost (JStr ''compute1-0123456789abcdef0123456789abcdef-cinder'')
     \<in> set (snd (snd (disconnect_host idle_array
          (JStr ''compute1-0123456789abcdef0123456789abcdef-cinder'') ''volume-1-cinder''
          ((), [])))) \<and>
   DeleteHost (JStr ''db-host'')
     \<notin> set (snd (snd (disconnect_host idle_array (JStr ''db-host'') ''volume-1-cinder''
          ((), []))))"
proof -
  let ?g = "JStr ''compute1-0123456789abcdef0123456789abcdef-cinder''"
  have g: "idle_array (DisconnectHost ?g ''volume-1-cinder'') () = (Inr JNull, ())"
    by (simp add: idle_array_def)
  have a: "idle_array (DisconnectHost (JStr ''db-host'') ''volume-1-cinder'') () = (Inr JNull, ())"
    by (simp add: idle_array_def)
  have l: "idle_array (ListHostConnections ?g True) () = (Inr (JList []), ())"
    by (simp add: idle_array_def)
  have n: "GENERATED_NAME_match_obj (JStr ''db-host'') \<noteq> Inr True"
    by (simp add: generated_tail_def uuid_hex_def)
  have m: "GENERATED_NAME_match_obj ?g = Inr True"
    using generated_example by simp
  have e: "\<exists>conns s2. idle_array (ListHostConnections ?g True) () = (Inr conns, s2) \<and>
             \<not> truthy conns"
    using l by simp
  have c: "case (Inr JNull :: error + jval) of
             Inl (PureAPIException code msg) \<Rightarrow> code = Some 400 | Inl _ \<Rightarrow> False
           | Inr _ \<Rightarrow> True"
    by simp
  from disconnect_host_deletes_iff [of idle_array ?g "''volume-1-cinder''" "()" "Inr JNull" "()",
      OF g] c m e
  have 1: "DeleteHost ?g \<in> set (snd (snd (disconnect_host idle_array ?g ''volume-1-cinder''
          ((), []))))"
    by blast
  from disconnect_host_deletes_iff [of idle_array "JStr ''db-host''" "''volume-1-cinder''" "()"
      "Inr JNull" "()", OF a] n
  have 2: "DeleteHost (JStr ''db-host'')
     \<notin> set (snd (snd (disconnect_host idle_array (JStr ''db-host'') ''volume-1-cinder''
          ((), []))))"
    by blast
  from g 1 2 show ?thesis by blast
qed

subsection \<open>_connect\<close>

lemma find_connection_find:
  assumes "\<forall>hi \<in> set his. \<exists>v. subscript hi ''host'' = Inr v"
  shows "find_connection his hn =
           Inr (case find (\<lambda>hi. subscript hi ''host'' = Inr hn) his of
                  Some c \<Rightarrow> c | None \<Rightarrow> JNull)"
  using assms by (induction his) (auto split: sum.splits)

lemma subscript_truthy: "subscript c k = Inr v \<Longrightarrow> truthy c"
  by (cases c) (auto split: option.splits)

lemma find_host_truthy:
  "find (\<lambda>hi. subscript hi ''host'' = Inr hn) his = Some c \<Longrightarrow> truthy c"
  by (auto simp: find_Some_iff intro: subscript_truthy)

text \<open>
  C8. When the connect call fails with code 400 and a message that contains
  \<^verbatim>\<open>Connection already exists\<close>, \<open>_connect\<close> lists the hosts connected to the volume (every
  record of the listing having its \<^verbatim>\<open>host\<close> entry) and returns the first record whose host
  is the host name; when the listing has no such record it raises the PureDriverException
  \<^verbatim>\<open>Unable to connect or find connection to host\<close>. In neither case does the conflict
  reach the caller.
\<close>

theorem connect_already_connected:
  fixes arr :: "'s array"
  assumes name: "connect_host_name arr connector u w = (Inr hn, (s1, log1))"
    and conflict: "arr (ConnectHost hn (get_vol_name vol)) s1 =
                     (Inl (PureAPIException (Some 400) msg), s2)"
    and msg: "sublist ''Connection already exists'' msg"
    and listed: "arr (ListVolumeHosts (get_vol_name vol)) s2 = (Inr connected_hosts, s3)"
    and iter: "iter connected_hosts = Inr his"
    and fields: "\<forall>hi \<in> set his. \<exists>v. subscript hi ''host'' = Inr v"
  shows "connect arr vol connector u w =
           ((case find (\<lambda>hi. subscript hi ''host'' = Inr hn) his of
               Some c \<Rightarrow> Inr c
             | None \<Rightarrow> Inl (PureDriverException ''Unable to connect or find connection to host'')),
            (s3, log1 @ [ConnectHost hn (get_vol_name vol), ListVolumeHosts (get_vol_name vol)])) \<and>
         fst (connect arr vol connector u w) \<noteq> Inl (PureAPIException (Some 400) msg)"
proof -
  let ?vn = "get_vol_name vol"
  let ?found = "find (\<lambda>hi. subscript hi ''host'' = Inr hn) his"
  have handler: "catchE (invoke arr (ConnectHost hn ?vn))
          (\<lambda>err. case err of
             PureAPIException code msg \<Rightarrow>
               if code = Some 400 \<and> sublist ''Connection already exists'' msg then
                 bindE (invoke arr (ListVolumeHosts ?vn))
                   (\<lambda>connected_hosts. bindE (liftE (iter connected_hosts))
                   (\<lambda>host_infos. liftE (find_connection host_infos hn)))
               else raiseE err
           | _ \<Rightarrow> raiseE err) (s1, log1) =
        (Inr (case ?found of Some c \<Rightarrow> c | None \<Rightarrow> JNull),
         (s3, log1 @ [ConnectHost hn ?vn, ListVolumeHosts ?vn]))"
    using conflict msg listed iter find_connection_find [OF fields, of hn]
    by (simp add: run_defs)
  have "connect_to arr hn ?vn (s1, log1) =
          ((case ?found of
               Some c \<Rightarrow> Inr c
             | None \<Rightarrow> Inl (PureDriverException ''Unable to connect or find connection to host'')),
            (s3, log1 @ [ConnectHost hn ?vn, ListVolumeHosts ?vn]))"
  proof (cases ?found)
    case None
    with handler show ?thesis
      unfolding connect_to_def by (simp add: bindE_def raiseE_def)
  next
    case (Some c)
    then have "truthy c" by (rule find_host_truthy)
    with handler Some show ?thesis
      unfolding connect_to_def by (simp add: bindE_def returnE_def)
  qed
  with name have eq: "connect arr vol connector u w =
           ((case ?found of
               Some c \<Rightarrow> Inr c
             | None \<Rightarrow> Inl (PureDriverException ''Unable to connect or find connection to host'')),
            (s3, log1 @ [ConnectHost hn ?vn, ListVolumeHosts ?vn]))"
    by (simp add: connect_def bindE_def Let_def)
  then have "fst (connect arr vol connector u w) \<noteq> Inl (PureAPIException (Some 400) msg)"
    by (simp split: option.splits)
  with eq show ?thesis by blast
qed

theorem connect_already_connected_witness:
  "connected_array (ConnectHost (JStr ''h1'') (get_vol_name vol1)) () =
     (Inl (PureAPIException (Some 400) ''Connection already exists.''), ()) \<and>
   connect connected_array vol1 connector1 uuid1 ((), []) =
     (Inr (JDict [(''host'', JStr ''h1''), (''lun'', JInt 2)]),
      ((), [ListHosts, ConnectHost (JStr ''h1'') ''volume-1-cinder'',
            ListVolumeHosts ''volume-1-cinder''])) \<and>
   connect inconsistent_array vol1 connector1 uuid1 ((), []) =
     (Inl (PureDriverException ''Unable to connect or find connection to host''),
      ((), [ListHosts, ConnectHost (JStr ''h1'') ''volume-1-cinder'',
            ListVolumeHosts ''volume-1-cinder'']))"
proof -
  let ?his = "[JDict [(''host'', JStr ''h0''), (''lun'', JInt 1)],
               JDict [(''host'', JStr ''h1''), (''lun'', JInt 2)]]"
  let ?his' = "[JDict [(''host'', JStr ''h0''), (''lun'', JInt 1)]]"
  have msg: "sublist ''Connection already exists'' ''Connection already exists.''"
    by (simp add: sublist_code(3) prefix_code(2))
  have name: "connect_host_name connected_array connector1 uuid1 ((), [])
                = (Inr (JStr ''h1''), ((), [ListHosts]))"
    by (simp add: connect_host_name_def get_host_def run_defs connected_array_def connector1_def)
  have conflict: "connected_array (ConnectHost (JStr ''h1'') (get_vol_name vol1)) ()
                = (Inl (PureAPIException (Some 400) ''Connection already exists.''), ())"
    by (simp add: connected_array_def)
  have listed: "connected_array (ListVolumeHosts (get_vol_name vol1)) () = (Inr (JList ?his), ())"
    by (simp add: connected_array_def)
  have it: "iter (JList ?his) = Inr ?his" by simp
  have fields: "\<forall>hi \<in> set ?his. \<exists>v. subscript hi ''host'' = Inr v" by simp
  have name': "connect_host_name inconsistent_array connector1 uuid1 ((), [])
                = (Inr (JStr ''h1''), ((), [ListHosts]))"
    by (simp add: connect_host_name_def get_host_def run_defs connected_array_def
        inconsistent_array_def connector1_def)
  have conflict': "inconsistent_array (ConnectHost (JStr ''h1'') (get_vol_name vol1)) ()
                = (Inl (PureAPIException (Some 400) ''Connection already exists.''), ())"
    by (simp add: connected_array_def inconsistent_array_def)
  have listed': "inconsistent_array (ListVolumeHosts (get_vol_name vol1)) ()
                = (Inr (JList ?his'), ())"
    by (simp add: inconsistent_array_def)
  have it': "iter (JList ?his') = Inr ?his'" by simp
  have fields': "\<forall>hi \<in> set ?his'. \<exists>v. subscript hi ''host'' = Inr v" by simp
  from connect_already_connected [of connected_array connector1 uuid1 "((), [])" "JStr ''h1''"
      "()" "[ListHosts]" vol1 "''Connection already exists.''" "()" "JList ?his" "()" ?his]
    name conflict msg listed it fields
  have 1: "connect connected_array vol1 connector1 uuid1 ((), []) =
     (Inr (JDict [(''host'', JStr ''h1''), (''lun'', JInt 2)]),
      ((), [ListHosts, ConnectHost (JStr ''h1'') ''volume-1-cinder'',
            ListVolumeHosts ''volume-1-cinder'']))"
    by (simp add: get_vol_name_def vol1_def)
  from connect_already_connected [of inconsistent_array connector1 uuid1 "((), [])" "JStr ''h1''"
      "()" "[ListHosts]" vol1 "''Connection already exists.''" "()" "JList ?his'" "()" ?his']
    name' conflict' msg listed' it' fields'
  have 2: "connect inconsistent_array vol1 connector1 uuid1 ((), []) =
     (Inl (PureDriverException ''Unable to connect or find connection to host''),
      ((), [ListHosts, ConnectHost (JStr ''h1'') ''volume-1-cinder'',
            ListVolumeHosts ''volume-1-cinder'']))"
    by (simp add: get_vol_name_def vol1_def)
  from conflict 1 2 show ?thesis by blast
qed


section \<open>FlashArray: the REST client\<close>

text \<open>
  \<^verbatim>\<open>self._opener.open(req, body)\<close> answers with an HTTP error (status code and the body that
  \<^verbatim>\<open>err.read()\<close> returns), with a URLError, or with a response (its Content-Type header, if
  any, and its content). A request is its method, its URL and the data that
  \<^verbatim>\<open>json.dumps\<close> turns into its body.

  The transport is any function that answers a request in a state of the network and
  moves to a new state; with it come the two library functions whose code is not part of
  the driver: \<^verbatim>\<open>json.loads\<close> (\<open>None\<close> when it raises ValueError) and the message that the
  class PureAPIException (of cinder.exception) makes from the \<^verbatim>\<open>reason\<close> it is raised with.

  \<open>flash_array\<close> is the object: the fields \<^verbatim>\<open>_target\<close>, \<^verbatim>\<open>_rest_version\<close>, \<^verbatim>\<open>_root_url\<close>
  and \<^verbatim>\<open>_api_token\<close>, the state of the network, and the requests sent so far.
\<close>

datatype response = HTTPError int string | URLError | Response "string option" string

record request =
  req_method :: string
  req_url :: string
  req_data :: jval

record 's transport =
  opener_open :: "request \<Rightarrow> 's \<Rightarrow> response \<times> 's"
  json_loads :: "string \<Rightarrow> jval option"
  api_exception_msg :: "string \<Rightarrow> string"

record 's flash_array =
  target :: string
  rest_version :: string
  root_url :: string
  api_token :: string
  net :: 's
  sent :: "request list"

text \<open>\<^verbatim>\<open>SUPPORTED_REST_API_VERSIONS = ["1.3", "1.2"]\<close>\<close>

definition SUPPORTED_REST_API_VERSIONS :: "string list" where
  "SUPPORTED_REST_API_VERSIONS = [''1.3'', ''1.2'']"

text \<open>
  The request that \<open>_http_request\<close> builds:
  \<^verbatim>\<open>urllib2.Request(self._root_url + path, ...)\<close>, \<^verbatim>\<open>req.get_method = lambda: method\<close>,
  \<^verbatim>\<open>body = json.dumps(data)\<close>.
\<close>

definition request_of :: "'s flash_array \<Rightarrow> string \<Rightarrow> string \<Rightarrow> jval \<Rightarrow> request" where
  "request_of self method path data =
     \<lparr>req_method = method, req_url = root_url self @ path, req_data = data\<rparr>"

text \<open>\<^verbatim>\<open>"%r" % s\<close> for a string without quotes, backslashes and non-printing characters.\<close>

definition py_repr :: "string \<Rightarrow> string" where
  "py_repr s = [CHR 0x27] @ s @ [CHR 0x27]"

text \<open>
  The end of \<open>_choose_rest_version\<close>, once the array has answered:
  \<^verbatim>\<open>
      available_versions = data["version"]
      available_versions.sort(reverse=True)
      for version in available_versions:
          if version in FlashArray.SUPPORTED_REST_API_VERSIONS:
              return version
      raise exception.PureDriverException(reason=...)
  \<close>
  Only a list has the method \<^verbatim>\<open>sort\<close>. An element that is not a string is never a
  supported version, and Python 2 orders values of different types without raising, so
  only the strings of the list are kept; they are sorted in descending order.
\<close>

definition strings_of :: "jval list \<Rightarrow> string list" where
  "strings_of xs = List.map_filter (\<lambda>v. case v of JStr s \<Rightarrow> Some s | _ \<Rightarrow> None) xs"

definition pick_version :: "jval \<Rightarrow> error + string" where
  "pick_version data =
     (case subscript data ''version'' of
        Inl e \<Rightarrow> Inl e
      | Inr (JList available_versions) \<Rightarrow>
          (case find (\<lambda>version. version \<in> set SUPPORTED_REST_API_VERSIONS)
                  (rev (sort (strings_of available_versions))) of
             Some version \<Rightarrow> Inr version
           | None \<Rightarrow>
               Inl (PureDriverException
                 (''All REST API versions supported by this version of '' @
                  ''the Pure Storage iSCSI driver are unavailable on array.'')))
      | Inr _ \<Rightarrow> Inl AttributeError)"

text \<open>
  The \<^verbatim>\<open>else\<close> branch of the \<^verbatim>\<open>try\<close> of \<open>_http_request\<close>:
  \<^verbatim>\<open>
      content = response.read()
      if "application/json" in response.info().get('Content-Type'):
          return json.loads(content)
      raise exception.PureAPIException(reason=(_LE("Response not in JSON: ") + content))
  \<close>
\<close>

definition read_response :: "'s transport \<Rightarrow> string option \<Rightarrow> string \<Rightarrow> error + jval" where
  "read_response tr content_type content =
     (case content_type of
        None \<Rightarrow> Inl TypeError
      | Some ct \<Rightarrow>
          if sublist ''application/json'' ct then
            (case json_loads tr content of None \<Rightarrow> Inl ValueError | Some v \<Rightarrow> Inr v)
          else Inl (PureAPIException None
                 (api_exception_msg tr (''Response not in JSON: '' @ content))))"

text \<open>
  \<^verbatim>\<open>
  def _http_request(self, method, path, data=None, reestablish_session=True):
      req = urllib2.Request(self._root_url + path, headers={...})
      req.get_method = lambda: method
      body = json.dumps(data)
      try:
          response = self._opener.open(req, body)
      except urllib2.HTTPError as err:
          if (reestablish_session and err.code == 401):
              self._start_session()
              return self._http_request(method, path, data, reestablish_session=False)
          elif err.code == 450:
              new_version = self._choose_rest_version()
              if new_version == self._rest_version:
                  raise exception.PureAPIException(code=err.code, reason=(... + err.read()))
              self._rest_version = new_version
              self._root_url = "https://%s/api/%s/" % (self._target, self._rest_version)
              return self._http_request(method, path, data)
          else:
              raise exception.PureAPIException(code=err.code, reason=err.read())
      except urllib2.URLError as err:
          raise exception.PureDriverException(
              reason=_LE("Unable to connect to %r. Check san_ip.") % self._target)
      else:
          ...

  def _choose_rest_version(self):
      self._root_url = "https://%s/api/" % self._target
      data = self._http_request("GET", "api_version")
      ...

  def _start_session(self):
      self._http_request("POST", "auth/session", {"api_token": self._api_token},
                         reestablish_session=False)
  \<close>
  The three methods call each other, and nothing in them bounds the number of calls: an
  array that rejects every request with status 450 makes them recurse for ever. The first
  argument is the depth of calls that is left (Python's recursion limit); \<open>None\<close> is the
  run that exceeds it. A method that raises leaves the object as it is at that moment.
\<close>

fun http_request :: "nat \<Rightarrow> 's transport \<Rightarrow> string \<Rightarrow> string \<Rightarrow> jval \<Rightarrow> bool \<Rightarrow> 's flash_array
      \<Rightarrow> ((error + jval) \<times> 's flash_array) option"
and choose_rest_version :: "nat \<Rightarrow> 's transport \<Rightarrow> 's flash_array
      \<Rightarrow> ((error + string) \<times> 's flash_array) option"
and start_session :: "nat \<Rightarrow> 's transport \<Rightarrow> 's flash_array
      \<Rightarrow> ((error + jval) \<times> 's flash_array) option"
where
  "http_request 0 tr method path data reestablish_session self = None"
| "http_request (Suc depth) tr method path data reestablish_session self =
     (case opener_open tr (request_of self method path data) (net self) of
        (resp, net') \<Rightarrow>
          (let self1 = self\<lparr>net := net', sent := sent self @ [request_of self method path data]\<rparr>
           in case resp of
                HTTPError code body \<Rightarrow>
                  if reestablish_session \<and> code = 401 then
                    (case start_session depth tr self1 of
                       None \<Rightarrow> None
                     | Some (Inl e, self2) \<Rightarrow> Some (Inl e, self2)
                     | Some (Inr _, self2) \<Rightarrow> http_request depth tr method path data False self2)
                  else if code = 450 then
                    (case choose_rest_version depth tr self1 of
                       None \<Rightarrow> None
                     | Some (Inl e, self2) \<Rightarrow> Some (Inl e, self2)
                     | Some (Inr new_version, self2) \<Rightarrow>
                         if new_version = rest_version self2 then
                           Some (Inl (PureAPIException (Some code)
                                   (api_exception_msg tr
                                      (''Unable to find usable REST API version. '' @
                                       ''Response from Pure Storage REST API: '' @ body))), self2)
                         else
                           http_request depth tr method path data True
                             (self2\<lparr>rest_version := new_version,
                                     root_url := ''https://'' @ target self2 @ ''/api/'' @
                                                 new_version @ ''/''\<rparr>))
                  else Some (Inl (PureAPIException (Some code) (api_exception_msg tr body)), self1)
              | URLError \<Rightarrow>
                  Some (Inl (PureDriverException
                          (''Unable to connect to '' @ py_repr (target self1) @
                           ''. Check san_ip.'')), self1)
              | Response content_type content \<Rightarrow>
                  Some (read_response tr content_type content, self1)))"
| "choose_rest_version 0 tr self = None"
| "choose_rest_version (Suc depth) tr self =
     (case http_request depth tr ''GET'' ''api_version'' JNull True
             (self\<lparr>root_url := ''https://'' @ target self @ ''/api/''\<rparr>) of
        None \<Rightarrow> None
      | Some (Inl e, self1) \<Rightarrow> Some (Inl e, self1)
      | Some (Inr data, self1) \<Rightarrow> Some (pick_version data, self1))"
| "start_session 0 tr self = None"
| "start_session (Suc depth) tr self =
     http_request depth tr ''POST'' ''auth/session''
       (JDict [(''api_token'', JStr (api_token self))]) False self"

declare http_request.simps [simp del]
declare choose_rest_version.simps [simp del]
declare start_session.simps [simp del]


section \<open>Properties of the REST client\<close>

text \<open>The request of \<open>_start_session\<close> and the request of \<open>_choose_rest_version\<close>.\<close>

definition session_request :: "'s flash_array \<Rightarrow> request" where
  "session_request self =
     request_of self ''POST'' ''auth/session'' (JDict [(''api_token'', JStr (api_token self))])"

definition version_request :: "'s flash_array \<Rightarrow> request" where
  "version_request self =
     \<lparr>req_method = ''GET'', req_url = ''https://'' @ target self @ ''/api/'' @ ''api_version'',
      req_data = JNull\<rparr>"

lemma http_request_response:
  assumes "opener_open tr (request_of self m p d) (net self) = (Response ct content, n1)"
  shows "http_request (Suc k) tr m p d r self =
           Some (read_response tr ct content,
                 self\<lparr>net := n1, sent := sent self @ [request_of self m p d]\<rparr>)"
  using assms by (simp add: http_request.simps)

lemma http_request_error:
  assumes "opener_open tr (request_of self m p d) (net self) = (HTTPError code body, n1)"
    and "\<not> (r \<and> code = 401)" and "code \<noteq> 450"
  shows "http_request (Suc k) tr m p d r self =
           Some (Inl (PureAPIException (Some code) (api_exception_msg tr body)),
                 self\<lparr>net := n1, sent := sent self @ [request_of self m p d]\<rparr>)"
  using assms by (auto simp: http_request.simps)

text \<open>
  The depth of calls is a real bound: on an array that answers every request with status
  450, the three methods call each other without end, and no depth is enough.
\<close>

lemma http_request_rejected_forever:
  assumes "\<And>req s. \<exists>body s'. opener_open tr req s = (HTTPError 450 body, s')"
  shows "http_request depth tr m p d r self = None \<and> choose_rest_version depth tr self = None"
proof (induction depth arbitrary: m p d r self)
  case 0
  show ?case by (simp add: http_request.simps choose_rest_version.simps)
next
  case (Suc depth)
  from assms obtain body s' where
    o: "opener_open tr (request_of self m p d) (net self) = (HTTPError 450 body, s')"
    by blast
  have c: "choose_rest_version depth tr
             (self\<lparr>net := s', sent := sent self @ [request_of self m p d]\<rparr>) = None"
    using Suc.IH by blast
  have 1: "http_request (Suc depth) tr m p d r self = None"
    by (simp add: http_request.simps o c)
  have "http_request depth tr ''GET'' ''api_version'' JNull True
             (self\<lparr>root_url := ''https://'' @ target self @ ''/api/''\<rparr>) = None"
    using Suc.IH by blast
  then have 2: "choose_rest_version (Suc depth) tr self = None"
    by (simp add: choose_rest_version.simps)
  from 1 2 show ?case by blast
qed


text \<open>
  One renegotiation: a request is answered with status 450 and the request for the versions
  with a JSON response from which a supported version is chosen. With the version that the
  client already has, the call fails; with another one, the call at this depth is the call
  one level deeper on the client that has adopted the version.
\<close>

lemma http_request_version_step:
  assumes first: "opener_open tr (request_of self m p d) (net self) = (HTTPError 450 body, n1)"
    and versions: "opener_open tr (version_request self) n1 = (Response (Some ct) content, n2)"
    and json: "sublist ''application/json'' ct" "json_loads tr content = Some data"
    and pick: "pick_version data = Inr new_version"
  shows "(new_version = rest_version self \<longrightarrow>
            http_request (Suc (Suc (Suc k))) tr m p d r self =
              Some (Inl (PureAPIException (Some 450)
                      (api_exception_msg tr
                         (''Unable to find usable REST API version. '' @
                          ''Response from Pure Storage REST API: '' @ body))),
                    self\<lparr>root_url := ''https://'' @ target self @ ''/api/'', net := n2,
                         sent := sent self @ [request_of self m p d, version_request self]\<rparr>)) \<and>
         (new_version \<noteq> rest_version self \<longrightarrow>
            http_request (Suc (Suc (Suc k))) tr m p d r self =
              http_request (Suc (Suc k)) tr m p d True
                (self\<lparr>net := n2,
                      sent := sent self @ [request_of self m p d, version_request self],
                      rest_version := new_version,
                      root_url := ''https://'' @ target self @ ''/api/'' @ new_version @ ''/''\<rparr>))"
proof -
  let ?self1 = "self\<lparr>net := n1, sent := sent self @ [request_of self m p d]\<rparr>"
  let ?self0 = "?self1\<lparr>root_url := ''https://'' @ target ?self1 @ ''/api/''\<rparr>"
  let ?self2 = "self\<lparr>root_url := ''https://'' @ target self @ ''/api/'', net := n2,
                         sent := sent self @ [request_of self m p d, version_request self]\<rparr>"
  have a: "opener_open tr (request_of ?self0 ''GET'' ''api_version'' JNull) (net ?self0)
             = (Response (Some ct) content, n2)"
    using versions by (simp add: version_request_def request_of_def)
  have "http_request (Suc k) tr ''GET'' ''api_version'' JNull True ?self0 =
          Some (read_response tr (Some ct) content,
                ?self0\<lparr>net := n2,
                  sent := sent ?self0 @ [request_of ?self0 ''GET'' ''api_version'' JNull]\<rparr>)"
    by (rule http_request_response [OF a])
  also have "\<dots> = Some (Inr data, ?self2)"
    using json by (simp add: read_response_def version_request_def request_of_def)
  finally have "choose_rest_version (Suc (Suc k)) tr ?self1 = Some (pick_version data, ?self2)"
    by (simp only: choose_rest_version.simps option.case sum.case prod.case)
  with pick have c: "choose_rest_version (Suc (Suc k)) tr ?self1 = Some (Inr new_version, ?self2)"
    by simp
  show ?thesis
    unfolding http_request.simps(2) [of "Suc (Suc k)"] first using c by simp
qed



subsection \<open>Two runs\<close>

text \<open>Transports on which the theorems are exercised; \<open>toy_loads\<close> decodes the contents
  that they send.\<close>

definition toy_loads :: "string \<Rightarrow> jval option" where
  "toy_loads s =
     (if s = ''versions'' then Some (JDict [(''version'', JList [JStr ''1.0'', JStr ''1.2''])])
      else if s = ''session'' then Some (JDict [(''username'', JStr ''pureuser'')])
      else if s = ''volumes'' then Some (JList [])
      else None)"

definition api_msg :: "string \<Rightarrow> string" where
  "api_msg reason = ''Bad response from Pure Storage REST API: '' @ reason"

definition json_response :: "string \<Rightarrow> response" where
  "json_response content = Response (Some ''application/json'') content"

text \<open>An array that supports the versions 1.0 and 1.2 and rejects every other request
  with status 450.\<close>

definition rejecting_transport :: "unit transport" where
  "rejecting_transport =
     \<lparr>opener_open = (\<lambda>req s.
        if req_url req = ''https://array/api/api_version'' then (json_response ''versions'', s)
        else (HTTPError 450 ''unsupported'', s)),
      json_loads = toy_loads, api_exception_msg = api_msg\<rparr>"

text \<open>An array on which every request but the start of a session is answered with
  status 401.\<close>

definition expired_transport :: "unit transport" where
  "expired_transport =
     \<lparr>opener_open = (\<lambda>req s.
        if req_url req = ''https://array/api/1.3/auth/session'' then (json_response ''session'', s)
        else (HTTPError 401 ''expired'', s)),
      json_loads = toy_loads, api_exception_msg = api_msg\<rparr>"

definition client13 :: "unit flash_array" where
  "client13 = \<lparr>target = ''array'', rest_version = ''1.3'', root_url = ''https://array/api/1.3/'',
     api_token = ''token'', net = (), sent = []\<rparr>"

lemma pick12: "pick_version (JDict [(''version'', JList [JStr ''1.0'', JStr ''1.2''])]) = Inr ''1.2''"
  by code_simp

lemma json_ct: "sublist ''application/json'' ''application/json''"
  by simp


text \<open>On the array that rejects every request but the one for the versions, one call
  renegotiates twice: the first renegotiation changes the version from 1.3 to 1.2, the call
  is repeated and rejected again, and only the second renegotiation finds the version
  unchanged.\<close>

lemma http_request_rejecting_run:
  "http_request (Suc (Suc (Suc (Suc 0)))) rejecting_transport ''GET'' ''volume'' JNull True client13 =
     Some (Inl (PureAPIException (Some 450)
                  (''Bad response from Pure Storage REST API: '' @
                   ''Unable to find usable REST API version. '' @
                   ''Response from Pure Storage REST API: unsupported'')),
           client13\<lparr>rest_version := ''1.2'', root_url := ''https://array/api/'',
             sent := [\<lparr>req_method = ''GET'', req_url = ''https://array/api/1.3/volume'', req_data = JNull\<rparr>,
                      \<lparr>req_method = ''GET'', req_url = ''https://array/api/api_version'', req_data = JNull\<rparr>,
                      \<lparr>req_method = ''GET'', req_url = ''https://array/api/1.2/volume'', req_data = JNull\<rparr>,
                      \<lparr>req_method = ''GET'', req_url = ''https://array/api/api_version'', req_data = JNull\<rparr>]\<rparr>)"
proof -
  let ?c2 = "client13\<lparr>net := (), sent := sent client13 @ [request_of client13 ''GET'' ''volume'' JNull, version_request client13],
                      rest_version := ''1.2'',
                      root_url := ''https://'' @ target client13 @ ''/api/'' @ ''1.2'' @ ''/''\<rparr>"
  have loads: "json_loads rejecting_transport ''versions'' =
                 Some (JDict [(''version'', JList [JStr ''1.0'', JStr ''1.2''])])"
    by (simp add: rejecting_transport_def toy_loads_def)
  have first: "opener_open rejecting_transport (request_of client13 ''GET'' ''volume'' JNull) (net client13)
                 = (HTTPError 450 ''unsupported'', ())"
    by (simp add: rejecting_transport_def request_of_def client13_def)
  have versions: "opener_open rejecting_transport (version_request client13) ()
                 = (Response (Some ''application/json'') ''versions'', ())"
    by (simp add: rejecting_transport_def version_request_def client13_def json_response_def)
  have new: "''1.2'' \<noteq> rest_version client13" by (simp add: client13_def)
  from http_request_version_step [OF first versions json_ct loads pick12, of "Suc 0" True] new
  have step1: "http_request (Suc (Suc (Suc (Suc 0)))) rejecting_transport ''GET'' ''volume'' JNull True client13
          = http_request (Suc (Suc (Suc 0))) rejecting_transport ''GET'' ''volume'' JNull True ?c2"
    by blast
  have first2: "opener_open rejecting_transport (request_of ?c2 ''GET'' ''volume'' JNull) (net ?c2)
                 = (HTTPError 450 ''unsupported'', ())"
    by (simp add: rejecting_transport_def request_of_def client13_def)
  have versions2: "opener_open rejecting_transport (version_request ?c2) ()
                 = (Response (Some ''application/json'') ''versions'', ())"
    by (simp add: rejecting_transport_def version_request_def client13_def json_response_def)
  have same: "''1.2'' = rest_version ?c2" by simp
  from http_request_version_step [OF first2 versions2 json_ct loads pick12, of 0 True] same
  have step2: "http_request (Suc (Suc (Suc 0))) rejecting_transport ''GET'' ''volume'' JNull True ?c2
          = Some (Inl (PureAPIException (Some 450)
                      (api_exception_msg rejecting_transport
                         (''Unable to find usable REST API version. '' @
                          ''Response from Pure Storage REST API: '' @ ''unsupported''))),
                    ?c2\<lparr>root_url := ''https://'' @ target ?c2 @ ''/api/'', net := (),
                         sent := sent ?c2 @ [request_of ?c2 ''GET'' ''volume'' JNull, version_request ?c2]\<rparr>)"
    by blast
  show ?thesis
    unfolding step1 step2
    by (simp add: rejecting_transport_def api_msg_def client13_def request_of_def version_request_def)
qed



subsection \<open>Renegotiation without end\<close>

text \<open>An array that rejects every request but the one for the versions, and that names a
  single version, 1.2 and 1.3 in turn; its state is whether it names 1.2 next.\<close>

definition alternating_loads :: "string \<Rightarrow> jval option" where
  "alternating_loads s =
     (if s = ''only 1.2'' then Some (JDict [(''version'', JList [JStr ''1.2''])])
      else if s = ''only 1.3'' then Some (JDict [(''version'', JList [JStr ''1.3''])])
      else None)"

definition alternating_transport :: "bool transport" where
  "alternating_transport =
     \<lparr>opener_open = (\<lambda>req s.
        if req_url req = ''https://array/api/api_version''
        then (json_response (if s then ''only 1.2'' else ''only 1.3''), \<not> s)
        else (HTTPError 450 ''unsupported'', s)),
      json_loads = alternating_loads, api_exception_msg = api_msg\<rparr>"

definition client13_alternating :: "bool flash_array" where
  "client13_alternating =
     \<lparr>target = ''array'', rest_version = ''1.3'', root_url = ''https://array/api/1.3/'',
      api_token = ''token'', net = True, sent = []\<rparr>"

text \<open>The client and this array are out of step: the version that the array names next is
  never the version of the client.\<close>

definition out_of_step :: "bool flash_array \<Rightarrow> bool" where
  "out_of_step self =
     (target self = ''array'' \<and>
      (if net self
       then rest_version self = ''1.3'' \<and> root_url self = ''https://array/api/1.3/''
       else rest_version self = ''1.2'' \<and> root_url self = ''https://array/api/1.2/''))"

text \<open>An array that supports the versions 1.0 and 1.2, rejects the requests of version 1.3
  and answers the requests of version 1.2.\<close>

definition upgrading_transport :: "unit transport" where
  "upgrading_transport =
     \<lparr>opener_open = (\<lambda>req s.
        if req_url req = ''https://array/api/api_version'' then (json_response ''versions'', s)
        else if req_url req = ''https://array/api/1.2/volume'' then (json_response ''volumes'', s)
        else (HTTPError 450 ''unsupported'', s)),
      json_loads = toy_loads, api_exception_msg = api_msg\<rparr>"


lemma pick_only12: "pick_version (JDict [(''version'', JList [JStr ''1.2''])]) = Inr ''1.2''"
  by code_simp

lemma pick_only13: "pick_version (JDict [(''version'', JList [JStr ''1.3''])]) = Inr ''1.3''"
  by code_simp

lemma alternating_first:
  assumes "out_of_step self"
  shows "opener_open alternating_transport (request_of self ''GET'' ''volume'' JNull) (net self)
           = (HTTPError 450 ''unsupported'', net self)"
  using assms
  by (cases "net self") (simp_all add: out_of_step_def alternating_transport_def request_of_def)

lemma alternating_versions:
  assumes "out_of_step self"
  shows "opener_open alternating_transport (version_request self) (net self)
           = (Response (Some ''application/json'') (if net self then ''only 1.2'' else ''only 1.3''),
              \<not> net self)"
  using assms
  by (simp add: out_of_step_def alternating_transport_def version_request_def json_response_def)

lemma alternating_step:
  assumes inv: "out_of_step self"
  shows "\<exists>self'. out_of_step self' \<and>
           http_request (Suc (Suc (Suc k))) alternating_transport ''GET'' ''volume'' JNull r self =
           http_request (Suc (Suc k)) alternating_transport ''GET'' ''volume'' JNull True self'"
proof (cases "net self")
  case True
  with inv have v: "rest_version self = ''1.3''" and t: "target self = ''array''"
    by (simp_all add: out_of_step_def)
  have loads: "json_loads alternating_transport ''only 1.2'' =
                 Some (JDict [(''version'', JList [JStr ''1.2''])])"
    by (simp add: alternating_transport_def alternating_loads_def)
  have vers: "opener_open alternating_transport (version_request self) (net self)
           = (Response (Some ''application/json'') ''only 1.2'', False)"
    using alternating_versions [OF inv] True by simp
  let ?self' = "self\<lparr>net := False,
                      sent := sent self @ [request_of self ''GET'' ''volume'' JNull, version_request self],
                      rest_version := ''1.2'',
                      root_url := ''https://'' @ target self @ ''/api/'' @ ''1.2'' @ ''/''\<rparr>"
  have new: "''1.2'' \<noteq> rest_version self" using v by simp
  from http_request_version_step [OF alternating_first [OF inv] vers json_ct loads pick_only12,
      of k r, THEN conjunct2, THEN mp, OF new]
  have "http_request (Suc (Suc (Suc k))) alternating_transport ''GET'' ''volume'' JNull r self =
           http_request (Suc (Suc k)) alternating_transport ''GET'' ''volume'' JNull True ?self'" .
  moreover have "out_of_step ?self'" using t by (simp add: out_of_step_def)
  ultimately show ?thesis by blast
next
  case False
  with inv have v: "rest_version self = ''1.2''" and t: "target self = ''array''"
    by (simp_all add: out_of_step_def)
  have loads: "json_loads alternating_transport ''only 1.3'' =
                 Some (JDict [(''version'', JList [JStr ''1.3''])])"
    by (simp add: alternating_transport_def alternating_loads_def)
  have vers: "opener_open alternating_transport (version_request self) (net self)
           = (Response (Some ''application/json'') ''only 1.3'', True)"
    using alternating_versions [OF inv] False by simp
  let ?self' = "self\<lparr>net := True,
                      sent := sent self @ [request_of self ''GET'' ''volume'' JNull, version_request self],
                      rest_version := ''1.3'',
                      root_url := ''https://'' @ target self @ ''/api/'' @ ''1.3'' @ ''/''\<rparr>"
  have new: "''1.3'' \<noteq> rest_version self" using v by simp
  from http_request_version_step [OF alternating_first [OF inv] vers json_ct loads pick_only13,
      of k r, THEN conjunct2, THEN mp, OF new]
  have "http_request (Suc (Suc (Suc k))) alternating_transport ''GET'' ''volume'' JNull r self =
           http_request (Suc (Suc k)) alternating_transport ''GET'' ''volume'' JNull True ?self'" .
  moreover have "out_of_step ?self'" using t by (simp add: out_of_step_def)
  ultimately show ?thesis by blast
qed

lemma alternating_short:
  assumes inv: "out_of_step self"
  shows "http_request 0 alternating_transport ''GET'' ''volume'' JNull r self = None"
    and "http_request (Suc 0) alternating_transport ''GET'' ''volume'' JNull r self = None"
    and "http_request (Suc (Suc 0)) alternating_transport ''GET'' ''volume'' JNull r self = None"
  using alternating_first [OF inv]
  by (simp_all add: http_request.simps choose_rest_version.simps)

text \<open>On this array the call returns at no depth: every renegotiation yields a version other
  than the one the client has, so the call is repeated, rejected and renegotiated again.\<close>

lemma alternating_forever:
  "out_of_step self \<Longrightarrow>
     http_request depth alternating_transport ''GET'' ''volume'' JNull r self = None \<and>
     http_request (Suc depth) alternating_transport ''GET'' ''volume'' JNull r self = None \<and>
     http_request (Suc (Suc depth)) alternating_transport ''GET'' ''volume'' JNull r self = None"
proof (induction depth arbitrary: self r)
  case 0
  then show ?case using alternating_short by blast
next
  case (Suc depth)
  from alternating_step [OF Suc.prems, of depth r] obtain self' where
    inv': "out_of_step self'" and
    eq: "http_request (Suc (Suc (Suc depth))) alternating_transport ''GET'' ''volume'' JNull r self =
           http_request (Suc (Suc depth)) alternating_transport ''GET'' ''volume'' JNull True self'"
    by blast
  from Suc.IH [OF inv', of True] eq Suc.IH [OF Suc.prems, of r] show ?case by simp
qed






section \<open>The NetApp block storage library\<close>

text \<open>
  The library (NetAppBlockStorageLibrary of block_base.py) is not among the sources; the
  sources hold its unit tests only. Its methods are modelled from the specification, and
  from what the tests show of the calls they make.
\<close>

text \<open>Modelled from the spec: the errors that the library raises or passes on (block_base.py
  and the client's NaApiError are missing). \<open>MappingExists\<close> is the array's report that the
  mapping already exists, \<open>ArrayError\<close> any other error reported by the array,
  \<open>NotImplemented\<close> the fault of a capability that the base does not supply, \<open>NotFound\<close>
  the absence of a volume from the local cross-reference.\<close>

datatype na_error =
    MappingExists
  | ArrayError string
  | NotImplemented
  | NotFound

text \<open>Modelled from the spec: an initiator group of the array (section 3, InitiatorGroup):
  its name, its protocol, the type of operating system, its initiators.\<close>

record igroup =
  igroup_name :: string
  igroup_type :: string
  igroup_os_type :: string
  igroup_initiators :: "string list"

text \<open>Modelled from the spec: what the local cross-reference holds for a volume (section 4.4,
  step 1): the path of the LUN and the type of operating system.\<close>

record lun_metadata =
  lun_path :: string
  lun_os_type :: string

text \<open>Modelled from the spec: the calls on the array (the client's calls, missing from the
  sources) that the library issues; the run of a method records them.\<close>

datatype na_call =
    GetIgroupByInitiators "string list"
  | CreateIgroup string string string
  | AddIgroupInitiator string string
  | MapLun string string "nat option"
  | FindMappedLunIgroup string "string list"

text \<open>Modelled from the spec: the collaborators of the library, each a function of the state
  of the array that answers with a value or an error. The first four are the calls of the
  client (the tests name them \<^verbatim>\<open>get_igroup_by_initiators\<close>, \<^verbatim>\<open>create_igroup\<close>,
  \<^verbatim>\<open>add_igroup_initiator\<close> and \<^verbatim>\<open>map_lun\<close>); \<open>find_mapped_lun_igroup\<close> is the
  capability that a protocol family supplies (section 4.4, step 4): the group and the LUN
  id of an existing mapping, or nothing.\<close>

record 's backend =
  get_igroup_by_initiators :: "string list \<Rightarrow> 's \<Rightarrow> (na_error + igroup list) \<times> 's"
  create_igroup :: "string \<Rightarrow> string \<Rightarrow> string \<Rightarrow> 's \<Rightarrow> (na_error + unit) \<times> 's"
  add_igroup_initiator :: "string \<Rightarrow> string \<Rightarrow> 's \<Rightarrow> (na_error + unit) \<times> 's"
  array_map_lun :: "string \<Rightarrow> string \<Rightarrow> nat option \<Rightarrow> 's \<Rightarrow> (na_error + nat) \<times> 's"
  find_mapped_lun_igroup ::
    "string \<Rightarrow> string list \<Rightarrow> 's \<Rightarrow> (na_error + (string \<times> nat) option) \<times> 's"

text \<open>Modelled from the spec: one call on the array, recorded.\<close>

definition issue ::
  "na_call \<Rightarrow> ('s \<Rightarrow> (na_error + 'a) \<times> 's) \<Rightarrow> 's \<times> na_call list
     \<Rightarrow> (na_error + 'a) \<times> ('s \<times> na_call list)" where
  "issue c f = (\<lambda>w. case f (fst w) of (r, s') \<Rightarrow> (r, (s', snd w @ [c])))"

text \<open>Modelled from the spec: "base behavior raises a not implemented fault" (section 4.4,
  step 4; the test test_find_mapped_lun_igroup expects NotImplementedError).\<close>

definition base_find_mapped_lun_igroup ::
  "string \<Rightarrow> string list \<Rightarrow> 's \<Rightarrow> (na_error + (string \<times> nat) option) \<times> 's" where
  "base_find_mapped_lun_igroup path initiators = raiseE NotImplemented"

text \<open>Modelled from the spec: "a new unique name (human-readable prefix plus a random unique
  suffix)" (section 4.3, step 2); the test test_get_or_create_igroup_none_preexisting gives
  the prefix and the suffix, \<^verbatim>\<open>'openstack-' + uuid\<close>. The suffix is a parameter.\<close>

definition new_igroup_name :: "string \<Rightarrow> string" where
  "new_igroup_name uuid = ''openstack-'' @ uuid"

text \<open>Modelled from the spec: \<open>_get_or_create_igroup\<close> of block_base.py (section 4.3).
  "Query the array for any existing group containing at least one member of initiatorSet.
  If the query returns one or more candidates, return the first. Otherwise generate a new
  unique name, create the group with protocol/osType, then add each initiator
  individually." An error of a call is surfaced; nothing is rolled back.\<close>

definition get_or_create_igroup ::
  "'s backend \<Rightarrow> string list \<Rightarrow> string \<Rightarrow> string \<Rightarrow> string \<Rightarrow> 's \<times> na_call list
     \<Rightarrow> (na_error + string) \<times> ('s \<times> na_call list)" where
  "get_or_create_igroup be initiators protocol os_type uuid =
     bindE (issue (GetIgroupByInitiators initiators) (get_igroup_by_initiators be initiators))
       (\<lambda>igroups.
          case igroups of
            g # _ \<Rightarrow> returnE (igroup_name g)
          | [] \<Rightarrow>
              (let name = new_igroup_name uuid
               in bindE (issue (CreateIgroup name protocol os_type)
                           (create_igroup be name protocol os_type))
                    (\<lambda>_. bindE
                       (for_each initiators
                          (\<lambda>initiator. issue (AddIgroupInitiator name initiator)
                                          (add_igroup_initiator be name initiator)))
                    (\<lambda>_. returnE name))))"

text \<open>Modelled from the spec: \<open>_map_lun\<close> of block_base.py (section 4.4). "Resolve
  {path, osType} for volumeRef from the local cross-reference collaborator; absence is a
  fatal NotFound. Resolve/create the initiator group. Attempt the array map call. On
  success, return the assigned LUN id. On an array-reported mapping already exists
  conflict, fall back to findMappedGroupAndLun(path, initiatorSet). If discovery succeeds,
  return its LUN id. If discovery fails to find a mapping after a reported conflict,
  propagate the original conflict error as fatal." Any other error of the map call is
  passed on.\<close>

definition map_lun ::
  "'s backend \<Rightarrow> (string \<Rightarrow> lun_metadata option) \<Rightarrow> string \<Rightarrow> string list \<Rightarrow> string
     \<Rightarrow> nat option \<Rightarrow> string \<Rightarrow> 's \<times> na_call list \<Rightarrow> (na_error + nat) \<times> ('s \<times> na_call list)" where
  "map_lun be lun_table name initiators protocol lun_id uuid =
     (case lun_table name of
        None \<Rightarrow> raiseE NotFound
      | Some metadata \<Rightarrow>
          bindE (get_or_create_igroup be initiators protocol (lun_os_type metadata) uuid)
            (\<lambda>igroup.
               catchE (issue (MapLun (lun_path metadata) igroup lun_id)
                         (array_map_lun be (lun_path metadata) igroup lun_id))
                 (\<lambda>err.
                    if err = MappingExists then
                      bindE (issue (FindMappedLunIgroup (lun_path metadata) initiators)
                               (find_mapped_lun_igroup be (lun_path metadata) initiators))
                        (\<lambda>found. case found of
                                    Some (g, discovered) \<Rightarrow> returnE discovered
                                  | None \<Rightarrow> raiseE err)
                    else raiseE err)))"

text \<open>Modelled from the spec: the answer of the fabric lookup service (sections 4.5 and 6):
  "per initiator, the reachable target subset and a path count".\<close>

type_synonym fabric_map = "(string \<times> string list \<times> nat) list"

type_synonym lookup_service = "string list \<Rightarrow> string list \<Rightarrow> fabric_map"

text \<open>Modelled from the spec: \<open>_build_initiator_target_map\<close> of block_base.py (section 4.5),
  given the initiators of the connector and the target WWPNs obtained from the array.
  "Without a configured fabric lookup service: every initiator is assumed reachable to
  every target WWPN; reported path count is 0. With a fabric lookup service: query it with
  (initiator WWPNs, target WWPNs). The builder unions all reachable targets into the
  result's target set and sums per-initiator path counts into the total." The result is
  the target set, the map from initiators to targets, and the path count; that an empty
  target set is fatal is the business of the caller (the test
  test_initialize_connection_fc_no_wwpns), not of the builder.\<close>

definition build_initiator_target_map ::
  "lookup_service option \<Rightarrow> string list \<Rightarrow> string list
     \<Rightarrow> string list \<times> (string \<times> string list) list \<times> nat" where
  "build_initiator_target_map lookup initiators all_target_wwpns =
     (case lookup of
        None \<Rightarrow> (all_target_wwpns, map (\<lambda>i. (i, all_target_wwpns)) initiators, 0)
      | Some service \<Rightarrow>
          (let dev_map = service initiators all_target_wwpns
           in (remdups (concat (map (\<lambda>(i, ts, n). ts) dev_map)),
               map (\<lambda>(i, ts, n). (i, ts)) dev_map,
               sum_list (map (\<lambda>(i, ts, n). n) dev_map))))"

subsection \<open>A reference array\<close>

text \<open>Modelled from the spec: an array that behaves as sections 3, 4.3 and 4.4 describe it
  (the array itself is outside the sources). Its state is the list of its initiator
  groups, in listing order, and the list of its mappings (path, group, LUN id).\<close>

record sim =
  sim_igroups :: "igroup list"
  sim_mappings :: "(string \<times> string \<times> nat) list"

text \<open>Modelled from the spec: "containing at least one member of initiatorSet".\<close>

definition has_initiator :: "string list \<Rightarrow> igroup \<Rightarrow> bool" where
  "has_initiator initiators g = (\<exists>i \<in> set initiators. i \<in> set (igroup_initiators g))"

text \<open>Modelled from the spec: adding an initiator to the group of a given name.\<close>

definition add_to_group :: "string \<Rightarrow> string \<Rightarrow> igroup \<Rightarrow> igroup" where
  "add_to_group name initiator g =
     (if igroup_name g = name then g\<lparr>igroup_initiators := igroup_initiators g @ [initiator]\<rparr>
      else g)"

text \<open>Modelled from the spec: the LUN id that the array assigns when no hint is given, the
  least number that no mapping uses.\<close>

fun free_lun_id :: "nat list \<Rightarrow> nat \<Rightarrow> nat \<Rightarrow> nat" where
  "free_lun_id used candidate 0 = candidate"
| "free_lun_id used candidate (Suc n) =
     (if candidate \<in> set used then free_lun_id used (Suc candidate) n else candidate)"

text \<open>Modelled from the spec: the five collaborators on the reference array. The query lists
  the groups that contain at least one of the initiators, in listing order; a new group is
  listed last and has no initiator; a path is mapped to a group at most once; discovery
  finds the first mapping of the path to a group that contains one of the initiators.\<close>

definition sim_get_igroup_by_initiators ::
  "string list \<Rightarrow> sim \<Rightarrow> (na_error + igroup list) \<times> sim" where
  "sim_get_igroup_by_initiators initiators s =
     (Inr (filter (has_initiator initiators) (sim_igroups s)), s)"

definition sim_create_igroup ::
  "string \<Rightarrow> string \<Rightarrow> string \<Rightarrow> sim \<Rightarrow> (na_error + unit) \<times> sim" where
  "sim_create_igroup name protocol os_type s =
     (Inr (), s\<lparr>sim_igroups := sim_igroups s @
        [\<lparr>igroup_name = name, igroup_type = protocol, igroup_os_type = os_type,
          igroup_initiators = []\<rparr>]\<rparr>)"

definition sim_add_igroup_initiator :: "string \<Rightarrow> string \<Rightarrow> sim \<Rightarrow> (na_error + unit) \<times> sim" where
  "sim_add_igroup_initiator name initiator s =
     (Inr (), s\<lparr>sim_igroups := map (add_to_group name initiator) (sim_igroups s)\<rparr>)"

definition sim_map_lun ::
  "string \<Rightarrow> string \<Rightarrow> nat option \<Rightarrow> sim \<Rightarrow> (na_error + nat) \<times> sim" where
  "sim_map_lun path igroup lun_id s =
     (if \<exists>m \<in> set (sim_mappings s). fst m = path \<and> fst (snd m) = igroup
      then (Inl MappingExists, s)
      else (let used = map (\<lambda>m. snd (snd m)) (sim_mappings s);
                new = (case lun_id of Some l \<Rightarrow> l
                       | None \<Rightarrow> free_lun_id used 0 (length used))
            in (Inr new, s\<lparr>sim_mappings := sim_mappings s @ [(path, igroup, new)]\<rparr>)))"

definition sim_find_mapped_lun_igroup ::
  "string \<Rightarrow> string list \<Rightarrow> sim \<Rightarrow> (na_error + (string \<times> nat) option) \<times> sim" where
  "sim_find_mapped_lun_igroup path initiators s =
     (Inr (case find (\<lambda>m. fst m = path \<and>
                        (\<exists>g \<in> set (sim_igroups s). igroup_name g = fst (snd m) \<and>
                           has_initiator initiators g)) (sim_mappings s) of
             None \<Rightarrow> None
           | Some m \<Rightarrow> Some (snd m)), s)"

definition sim_backend :: "sim backend" where
  "sim_backend =
     \<lparr>get_igroup_by_initiators = sim_get_igroup_by_initiators,
      create_igroup = sim_create_igroup,
      add_igroup_initiator = sim_add_igroup_initiator,
      array_map_lun = sim_map_lun,
      find_mapped_lun_igroup = sim_find_mapped_lun_igroup\<rparr>"

text \<open>Inputs on which the theorems below are exercised.\<close>

definition initiators1 :: "string list" where
  "initiators1 = [''21000024ff406cc3'', ''21000024ff406cc2'']"

definition uuid2 :: string where
  "uuid2 = ''fedcba9876543210fedcba9876543210''"
definition empty_array :: sim where
  "empty_array = \<lparr>sim_igroups = [], sim_mappings = []\<rparr>"

definition igroup1 :: igroup where
  "igroup1 = \<lparr>igroup_name = ''openstack-igroup1'', igroup_type = ''fcp'', igroup_os_type = ''linux'',
     igroup_initiators = [''21000024ff406cc3'', ''21000024ff406cc2'']\<rparr>"

definition mapped_array :: sim where
  "mapped_array = \<lparr>sim_igroups = [igroup1],
     sim_mappings = [(''/vol/vol1/lun1'', ''openstack-igroup1'', 2)]\<rparr>"

definition lun_table1 :: "string \<Rightarrow> lun_metadata option" where
  "lun_table1 name =
     (if name = ''fake_volume'' then Some \<lparr>lun_path = ''/vol/vol1/lun1'', lun_os_type = ''linux''\<rparr>
      else None)"
definition fabric_example :: "nat \<Rightarrow> nat \<Rightarrow> lookup_service" where
  "fabric_example na nb initiators targets = [(''A'', [''T1''], na), (''B'', [''T2'', ''T3''], nb)]"

section \<open>Properties of the NetApp library\<close>

lemmas na_defs = returnE_def raiseE_def bindE_def catchE_def issue_def

lemma sim_backend_simps:
  "get_igroup_by_initiators sim_backend = sim_get_igroup_by_initiators"
  "create_igroup sim_backend = sim_create_igroup"
  "add_igroup_initiator sim_backend = sim_add_igroup_initiator"
  "array_map_lun sim_backend = sim_map_lun"
  "find_mapped_lun_igroup sim_backend = sim_find_mapped_lun_igroup"
  by (simp_all add: sim_backend_def)

lemma issue_get_sim:
  "issue (GetIgroupByInitiators initiators) (get_igroup_by_initiators sim_backend initiators) (s, log)
     = (Inr (filter (has_initiator initiators) (sim_igroups s)),
        (s, log @ [GetIgroupByInitiators initiators]))"
  by (simp add: issue_def sim_backend_simps sim_get_igroup_by_initiators_def)

lemma issue_create_sim:
  "issue (CreateIgroup name protocol os_type) (create_igroup sim_backend name protocol os_type) (s, log)
     = (Inr (), (s\<lparr>sim_igroups := sim_igroups s @
          [\<lparr>igroup_name = name, igroup_type = protocol, igroup_os_type = os_type,
            igroup_initiators = []\<rparr>]\<rparr>,
        log @ [CreateIgroup name protocol os_type]))"
  by (simp add: issue_def sim_backend_simps sim_create_igroup_def)

lemma for_each_add_log:
  fixes be :: "'s backend"
  assumes "for_each initiators
            (\<lambda>initiator. issue (AddIgroupInitiator name initiator)
                            (add_igroup_initiator be name initiator)) (s, log) = (Inr (), (s', log'))"
  shows "log' = log @ map (AddIgroupInitiator name) initiators"
  using assms
proof (induction initiators arbitrary: s log)
  case Nil
  then show ?case by (simp add: returnE_def)
next
  case (Cons i rest)
  obtain r s1 where step: "add_igroup_initiator be name i s = (r, s1)" by (cases "add_igroup_initiator be name i s")
  with Cons.prems have r: "r = Inr ()" 
    and rest: "for_each rest
            (\<lambda>initiator. issue (AddIgroupInitiator name initiator)
                            (add_igroup_initiator be name initiator)) (s1, log @ [AddIgroupInitiator name i])
           = (Inr (), (s', log'))"
    by (auto simp: bindE_def issue_def split: sum.splits)
  from Cons.IH [OF rest] show ?case by simp
qed

lemma for_each_add_sim:
  "for_each initiators
      (\<lambda>initiator. issue (AddIgroupInitiator name initiator)
                      (add_igroup_initiator sim_backend name initiator)) (s, log) =
   (Inr (), (s\<lparr>sim_igroups := map (\<lambda>g. fold (add_to_group name) initiators g) (sim_igroups s)\<rparr>,
             log @ map (AddIgroupInitiator name) initiators))"
proof (induction initiators arbitrary: s log)
  case Nil
  then show ?case by (simp add: returnE_def)
next
  case (Cons i rest)
  have "issue (AddIgroupInitiator name i) (add_igroup_initiator sim_backend name i) (s, log)
          = (Inr (), (s\<lparr>sim_igroups := map (add_to_group name i) (sim_igroups s)\<rparr>,
                      log @ [AddIgroupInitiator name i]))"
    by (simp add: issue_def sim_backend_simps sim_add_igroup_initiator_def)
  then show ?case
    by (simp add: bindE_def Cons.IH comp_def)
qed

lemma fold_add_to_group_name: "igroup_name (fold (add_to_group name) inits g) = igroup_name g"
  by (induction inits arbitrary: g) (auto simp: add_to_group_def)

lemma fold_add_to_group_other:
  "igroup_name g \<noteq> name \<Longrightarrow> fold (add_to_group name) inits g = g"
  by (induction inits arbitrary: g) (auto simp: add_to_group_def)

lemma fold_add_to_group_same:
  "igroup_name g = name \<Longrightarrow>
     igroup_initiators (fold (add_to_group name) inits g) = igroup_initiators g @ inits"
  by (induction inits arbitrary: g) (auto simp: add_to_group_def)

lemma get_or_create_existing:
  fixes be :: "'s backend"
  assumes "get_igroup_by_initiators be initiators s = (Inr (g # gs), s1)"
  shows "get_or_create_igroup be initiators protocol os_type uuid (s, log) =
           (Inr (igroup_name g), (s1, log @ [GetIgroupByInitiators initiators]))"
  using assms by (simp add: get_or_create_igroup_def bindE_def issue_def returnE_def)

lemma get_or_create_new:
  fixes be :: "'s backend"
  assumes q: "get_igroup_by_initiators be initiators s = (Inr [], s1)"
    and r: "get_or_create_igroup be initiators protocol os_type uuid (s, log) = (Inr name, (s', log'))"
  shows "name = new_igroup_name uuid \<and>
         log' = log @ [GetIgroupByInitiators initiators, CreateIgroup name protocol os_type] @
                  map (AddIgroupInitiator name) initiators"
proof -
  let ?n = "new_igroup_name uuid"
  obtain rc s2 where c: "create_igroup be ?n protocol os_type s1 = (rc, s2)"
    by (cases "create_igroup be ?n protocol os_type s1")
  let ?log2 = "log @ [GetIgroupByInitiators initiators, CreateIgroup ?n protocol os_type]"
  obtain ra w3 where a: "for_each initiators
            (\<lambda>initiator. issue (AddIgroupInitiator ?n initiator)
                            (add_igroup_initiator be ?n initiator)) (s2, ?log2) = (ra, w3)"
    by (cases "for_each initiators
            (\<lambda>initiator. issue (AddIgroupInitiator ?n initiator)
                            (add_igroup_initiator be ?n initiator)) (s2, ?log2)")
  have 1: "issue (GetIgroupByInitiators initiators) (get_igroup_by_initiators be initiators) (s, log)
             = (Inr [], (s1, log @ [GetIgroupByInitiators initiators]))"
    using q by (simp add: issue_def)
  have 2: "issue (CreateIgroup ?n protocol os_type) (create_igroup be ?n protocol os_type)
             (s1, log @ [GetIgroupByInitiators initiators]) = (rc, (s2, ?log2))"
    using c by (simp add: issue_def)
  have run: "get_or_create_igroup be initiators protocol os_type uuid (s, log) =
          (case rc of
             Inl e \<Rightarrow> (Inl e, (s2, ?log2))
           | Inr u \<Rightarrow> (case ra of Inl e \<Rightarrow> (Inl e, w3) | Inr v \<Rightarrow> (Inr ?n, w3)))"
  proof (cases rc)
    case (Inl e)
    with 1 2 show ?thesis
      by (simp add: get_or_create_igroup_def bindE_def Let_def)
  next
    case (Inr u)
    have "get_or_create_igroup be initiators protocol os_type uuid (s, log) =
            bindE (for_each initiators
                          (\<lambda>initiator. issue (AddIgroupInitiator ?n initiator)
                                          (add_igroup_initiator be ?n initiator)))
                    (\<lambda>_. returnE ?n) (s2, ?log2)"
      using 1 2 Inr by (simp add: get_or_create_igroup_def bindE_def Let_def)
    also have "\<dots> = (case ra of Inl e \<Rightarrow> (Inl e, w3) | Inr v \<Rightarrow> (Inr ?n, w3))"
      by (cases ra) (simp_all add: bindE_def a returnE_def)
    finally show ?thesis
      by (simp only: Inr sum.case)
  qed
  from r have "(case rc of
             Inl e \<Rightarrow> (Inl e, (s2, ?log2))
           | Inr u \<Rightarrow> (case ra of Inl e \<Rightarrow> (Inl e, w3) | Inr v \<Rightarrow> (Inr ?n, w3)))
         = (Inr name, (s', log'))"
    by (simp only: run)
  then have "name = ?n \<and> ra = Inr () \<and> w3 = (s', log')"
    by (cases rc; cases ra) simp_all
  then have n: "name = ?n" and ra: "ra = Inr ()" and w3: "w3 = (s', log')"
    by blast+
  from a have "for_each initiators
            (\<lambda>initiator. issue (AddIgroupInitiator ?n initiator)
                            (add_igroup_initiator be ?n initiator)) (s2, ?log2) = (Inr (), (s', log'))"
    by (simp only: ra w3)
  then have "log' = ?log2 @ map (AddIgroupInitiator ?n) initiators"
    by (rule for_each_add_log)
  with n show ?thesis by simp
qed

lemma sim_second_call:
  assumes ne: "initiators \<noteq> []"
    and first: "get_or_create_igroup sim_backend initiators protocol os_type u1 (s, []) = (r1, (s1, log1))"
  shows "\<exists>name. r1 = Inr name \<and>
           get_or_create_igroup sim_backend initiators protocol os_type u2 (s1, []) =
             (Inr name, (s1, [GetIgroupByInitiators initiators]))"
proof (cases "filter (has_initiator initiators) (sim_igroups s)")
  case (Cons g gs)
  then have q: "get_igroup_by_initiators sim_backend initiators s = (Inr (g # gs), s)"
    by (simp add: sim_backend_simps sim_get_igroup_by_initiators_def)
  have "get_or_create_igroup sim_backend initiators protocol os_type u1 (s, []) =
          (Inr (igroup_name g), (s, [] @ [GetIgroupByInitiators initiators]))"
    by (rule get_or_create_existing [OF q])
  with first have "r1 = Inr (igroup_name g)" "s1 = s"
    by simp_all
  moreover have "get_or_create_igroup sim_backend initiators protocol os_type u2 (s, []) =
          (Inr (igroup_name g), (s, [] @ [GetIgroupByInitiators initiators]))"
    by (rule get_or_create_existing [OF q])
  ultimately show ?thesis by simp
next
  case Nil
  define n where "n = new_igroup_name u1"
  define new where "new = \<lparr>igroup_name = n, igroup_type = protocol, igroup_os_type = os_type,
          igroup_initiators = []\<rparr>"
  define groups where "groups = map (\<lambda>g. fold (add_to_group n) initiators g) (sim_igroups s @ [new])"
  have "get_or_create_igroup sim_backend initiators protocol os_type u1 (s, []) =
          (Inr n, (s\<lparr>sim_igroups := groups\<rparr>,
             [GetIgroupByInitiators initiators, CreateIgroup n protocol os_type] @
             map (AddIgroupInitiator n) initiators))"
    using Nil unfolding groups_def new_def n_def
    by (simp add: get_or_create_igroup_def bindE_def returnE_def Let_def issue_get_sim
        issue_create_sim for_each_add_sim)
  with first have r1: "r1 = Inr n" and s1: "s1 = s\<lparr>sim_igroups := groups\<rparr>"
    by simp_all
  have name_new: "igroup_name new = n" by (simp add: new_def)
  have all: "igroup_name g = n" if "g \<in> set groups" and h: "has_initiator initiators g" for g
  proof (rule ccontr)
    assume d: "igroup_name g \<noteq> n"
    from that obtain g0 where g0: "g0 \<in> set (sim_igroups s) \<or> g0 = new"
      and g: "g = fold (add_to_group n) initiators g0"
      unfolding groups_def by auto
    from d g have d0: "igroup_name g0 \<noteq> n" by (simp add: fold_add_to_group_name)
    with g have "g = g0" by (simp add: fold_add_to_group_other)
    with d0 g0 name_new have "g \<in> set (sim_igroups s)" by auto
    with h have "g \<in> set (filter (has_initiator initiators) (sim_igroups s))" by simp
    with Nil show False by simp
  qed
  have "igroup_initiators (fold (add_to_group n) initiators new) = igroup_initiators new @ initiators"
    using name_new by (rule fold_add_to_group_same)
  then have "set initiators \<subseteq> set (igroup_initiators (fold (add_to_group n) initiators new))"
    by simp
  moreover from ne obtain i where "i \<in> set initiators" by (cases initiators) auto
  ultimately have hn: "has_initiator initiators (fold (add_to_group n) initiators new)"
    unfolding has_initiator_def by blast
  have "fold (add_to_group n) initiators new \<in> set groups"
    unfolding groups_def by simp
  with hn have "fold (add_to_group n) initiators new \<in> set (filter (has_initiator initiators) groups)"
    by simp
  then obtain g gs where f: "filter (has_initiator initiators) groups = g # gs"
    by (cases "filter (has_initiator initiators) groups") auto
  then have "g \<in> set (filter (has_initiator initiators) groups)" by simp
  then have "g \<in> set groups" "has_initiator initiators g" by simp_all
  then have gn: "igroup_name g = n" by (rule all)
  from f s1 have q: "get_igroup_by_initiators sim_backend initiators s1 = (Inr (g # gs), s1)"
    by (simp add: sim_backend_simps sim_get_igroup_by_initiators_def)
  have "get_or_create_igroup sim_backend initiators protocol os_type u2 (s1, []) =
          (Inr (igroup_name g), (s1, [] @ [GetIgroupByInitiators initiators]))"
    by (rule get_or_create_existing [OF q])
  with gn r1 show ?thesis by simp
qed

subsection \<open>_map_lun\<close>

text \<open>
  C1. For every volume reference and initiator set: when the map call of the array fails
  with the conflict that the mapping already exists, \<open>_map_lun\<close> calls
  \<open>_find_mapped_lun_igroup\<close> with the path and the initiators; when this discovery
  returns a group and a LUN id, \<open>_map_lun\<close> returns that LUN id and raises nothing; when
  it finds no mapping, the conflict is raised as it was. No further call is issued: the map
  call is not retried.
\<close>

theorem map_lun_conflict_fallback:
  fixes be :: "'s backend"
  assumes md: "lun_table name = Some metadata"
    and grp: "get_or_create_igroup be initiators protocol (lun_os_type metadata) uuid w
                = (Inr igroup, (s1, log1))"
    and conflict: "array_map_lun be (lun_path metadata) igroup lun_id s1 = (Inl MappingExists, s2)"
    and discovery: "find_mapped_lun_igroup be (lun_path metadata) initiators s2 = (Inr found, s3)"
  shows "map_lun be lun_table name initiators protocol lun_id uuid w =
           ((case found of
               Some (g, discovered) \<Rightarrow> Inr discovered
             | None \<Rightarrow> Inl MappingExists),
            (s3, log1 @ [MapLun (lun_path metadata) igroup lun_id,
                         FindMappedLunIgroup (lun_path metadata) initiators]))"
  using assms
  by (cases found) (auto simp: map_lun_def na_defs)

theorem map_lun_conflict_fallback_witness:
  "array_map_lun sim_backend ''/vol/vol1/lun1'' ''openstack-igroup1'' None mapped_array
     = (Inl MappingExists, mapped_array) \<and>
   map_lun sim_backend lun_table1 ''fake_volume'' initiators1 ''fcp'' None uuid1 (mapped_array, []) =
     (Inr 2, (mapped_array, [GetIgroupByInitiators initiators1,
                             MapLun ''/vol/vol1/lun1'' ''openstack-igroup1'' None,
                             FindMappedLunIgroup ''/vol/vol1/lun1'' initiators1]))"
proof -
  let ?md = "\<lparr>lun_path = ''/vol/vol1/lun1'', lun_os_type = ''linux''\<rparr>"
  have md: "lun_table1 ''fake_volume'' = Some ?md" by (simp add: lun_table1_def)
  have q: "get_igroup_by_initiators sim_backend initiators1 mapped_array = (Inr (igroup1 # []), mapped_array)"
    by (auto simp: sim_backend_simps sim_get_igroup_by_initiators_def mapped_array_def
        has_initiator_def igroup1_def initiators1_def)
  have grp: "get_or_create_igroup sim_backend initiators1 ''fcp'' (lun_os_type ?md) uuid1 (mapped_array, [])
                = (Inr ''openstack-igroup1'', (mapped_array, [GetIgroupByInitiators initiators1]))"
    using get_or_create_existing [OF q, of "''fcp''" "lun_os_type ?md" uuid1 "[]"]
    by (simp add: igroup1_def)
  have conflict: "array_map_lun sim_backend (lun_path ?md) ''openstack-igroup1'' None mapped_array
     = (Inl MappingExists, mapped_array)"
    by (simp add: sim_backend_simps sim_map_lun_def mapped_array_def)
  have discovery: "find_mapped_lun_igroup sim_backend (lun_path ?md) initiators1 mapped_array
     = (Inr (Some (''openstack-igroup1'', 2)), mapped_array)"
    by (auto simp: sim_backend_simps sim_find_mapped_lun_igroup_def mapped_array_def
        has_initiator_def igroup1_def initiators1_def)
  from map_lun_conflict_fallback [of lun_table1 "''fake_volume''" ?md sim_backend initiators1
      "''fcp''" uuid1 "(mapped_array, [])" "''openstack-igroup1''" mapped_array
      "[GetIgroupByInitiators initiators1]" None mapped_array "Some (''openstack-igroup1'', 2)"
      mapped_array, OF md grp conflict discovery] conflict
  show ?thesis by simp
qed

subsection \<open>_get_or_create_igroup\<close>





subsection \<open>_build_initiator_target_map\<close>

text \<open>
  With the fabric map A to T1, B to T2 and T3, and one path counted for each reachable
  target, the path count is 3, not 2.
\<close>

theorem build_example_counterexample:
  "build_initiator_target_map (Some (fabric_example 1 2)) [''A'', ''B''] [''T1'', ''T2'', ''T3''] =
     ([''T1'', ''T2'', ''T3''], [(''A'', [''T1'']), (''B'', [''T2'', ''T3''])], 3) \<and>
   snd (snd (build_initiator_target_map (Some (fabric_example 1 2)) [''A'', ''B'']
               [''T1'', ''T2'', ''T3''])) \<noteq> 2"
  by (simp add: build_initiator_target_map_def fabric_example_def)

text \<open>
  C5 (amended). With a fabric lookup service, the builder returns as target set the union
  of the targets that the service reports reachable for the initiators, and as path count
  the sum of the path counts that the service reports for them. In particular, with the
  fabric map A to T1, B to T2 and T3, the target set is T1, T2, T3 and the path count is the
  sum of the path count of A and the path count of B.
\<close>

theorem build_with_lookup_service:
  assumes "build_initiator_target_map (Some service) initiators all_targets =
             (target_wwpns, init_targ_map, num_paths)"
  shows "set target_wwpns = (\<Union>(i, ts, n) \<in> set (service initiators all_targets). set ts) \<and>
         distinct target_wwpns \<and>
         num_paths = (\<Sum>(i, ts, n) \<leftarrow> service initiators all_targets. n) \<and>
         (service initiators all_targets = [(a, [t1], na), (b, [t2, t3], nb)] \<longrightarrow>
            set target_wwpns = {t1, t2, t3} \<and> num_paths = na + nb)"
proof -
  from assms have t: "target_wwpns =
      remdups (concat (map (\<lambda>(i, ts, n). ts) (service initiators all_targets)))"
    and n: "num_paths = sum_list (map (\<lambda>(i, ts, n). n) (service initiators all_targets))"
    by (simp_all add: build_initiator_target_map_def Let_def)
  from t have 1: "set target_wwpns = (\<Union>(i, ts, n) \<in> set (service initiators all_targets). set ts)"
    by auto
  from t have 2: "distinct target_wwpns" by simp
  have 3: "service initiators all_targets = [(a, [t1], na), (b, [t2, t3], nb)] \<longrightarrow>
            set target_wwpns = {t1, t2, t3} \<and> num_paths = na + nb"
    using t n by auto
  from 1 2 3 n show ?thesis by blast
qed

theorem build_with_lookup_service_witness:
  "build_initiator_target_map (Some (fabric_example 1 2)) [''A'', ''B''] [''T1'', ''T2'', ''T3''] =
     ([''T1'', ''T2'', ''T3''], [(''A'', [''T1'']), (''B'', [''T2'', ''T3''])], 3) \<and>
   set [''T1'', ''T2'', ''T3''] = {''T1'', ''T2'', ''T3''} \<and> (3::nat) = 1 + 2"
proof -
  have b: "build_initiator_target_map (Some (fabric_example 1 2)) [''A'', ''B''] [''T1'', ''T2'', ''T3''] =
     ([''T1'', ''T2'', ''T3''], [(''A'', [''T1'']), (''B'', [''T2'', ''T3''])], 3)"
    by (simp add: build_initiator_target_map_def fabric_example_def)
  have f: "fabric_example 1 2 [''A'', ''B''] [''T1'', ''T2'', ''T3''] =
             [(''A'', [''T1''], 1), (''B'', [''T2'', ''T3''], 2)]"
    by (simp add: fabric_example_def)
  from build_with_lookup_service [OF b, of "''A''" "''T1''" 1 "''B''" "''T2''" "''T3''" 2,
      THEN conjunct2, THEN conjunct2, THEN conjunct2, THEN mp, OF f] b
  show ?thesis by simp
qed

text \<open>
  C6. Without a fabric lookup service, \<open>_build_initiator_target_map\<close> maps every initiator
  of the connector to all the target WWPNs obtained from the array, returns these as
  targets, and returns the path count 0.
\<close>

theorem build_without_lookup_service:
  assumes "build_initiator_target_map None initiators all_targets =
             (target_wwpns, init_targ_map, num_paths)"
  shows "target_wwpns = all_targets \<and> num_paths = 0 \<and>
         fst ` set init_targ_map = set initiators \<and>
         (\<forall>i \<in> set initiators. map_of init_targ_map i = Some all_targets)"
proof -
  from assms have t: "target_wwpns = all_targets" and n: "num_paths = 0"
    and m: "init_targ_map = map (\<lambda>i. (i, all_targets)) initiators"
    by (auto simp: build_initiator_target_map_def)
  have "fst ` set init_targ_map = set initiators"
    unfolding m by (induction initiators) auto
  moreover have "\<forall>i \<in> set initiators. map_of init_targ_map i = Some all_targets"
    unfolding m by (induction initiators) auto
  ultimately show ?thesis using t n by blast
qed

theorem build_without_lookup_service_witness:
  "build_initiator_target_map None [''A'', ''B''] [''T1'', ''T2'', ''T3''] =
     ([''T1'', ''T2'', ''T3''],
      [(''A'', [''T1'', ''T2'', ''T3'']), (''B'', [''T1'', ''T2'', ''T3''])], 0) \<and>
   map_of [(''A'', [''T1'', ''T2'', ''T3'']), (''B'', [''T1'', ''T2'', ''T3''])] ''B''
     = Some [''T1'', ''T2'', ''T3'']"
proof -
  have b: "build_initiator_target_map None [''A'', ''B''] [''T1'', ''T2'', ''T3''] =
     ([''T1'', ''T2'', ''T3''],
      [(''A'', [''T1'', ''T2'', ''T3'']), (''B'', [''T1'', ''T2'', ''T3''])], 0)"
    by (simp add: build_initiator_target_map_def)
  from build_without_lookup_service [OF b] have
    "\<forall>i \<in> set [''A'', ''B'']. map_of [(''A'', [''T1'', ''T2'', ''T3'']), (''B'', [''T1'', ''T2'', ''T3''])] i
       = Some [''T1'', ''T2'', ''T3'']"
    by blast
  then have "map_of [(''A'', [''T1'', ''T2'', ''T3'']), (''B'', [''T1'', ''T2'', ''T3''])] ''B''
     = Some [''T1'', ''T2'', ''T3'']"
    by (rule bspec) simp
  with b show ?thesis by blast
qed


end
